theory Spec2Isabelle
  imports Main "HOL-Library.Signed_Division"
begin

section \<open>picocom: the command keys, the session options and the baud walker\<close>

text \<open>
  A shallow embedding of \<^verbatim>\<open>picocom.c\<close>. C's \<^verbatim>\<open>int\<close> is modelled as \<^typ>\<open>int\<close> with
  the 32-bit two's-complement wrap-around written out where an operation can overflow;
  \<^verbatim>\<open>unsigned int\<close> as \<^typ>\<open>int\<close> reduced modulo \<open>2 ^ 32\<close>. Bytes
  (\<^verbatim>\<open>unsigned char\<close>) are \<^typ>\<open>char\<close>, so that what is written to a file descriptor is a
  \<^typ>\<open>string\<close>. C's integer division truncates towards zero: \<open>sdiv\<close>.
\<close>

subsection \<open>Machine integers\<close>

definition int_wrap :: "int \<Rightarrow> int" where
  \<comment> \<open>the value an \<^verbatim>\<open>int\<close> holds after an arithmetic result is stored in 32 bits\<close>
  "int_wrap x = (x + 2147483648) mod 4294967296 - 2147483648"

definition uint_wrap :: "int \<Rightarrow> int" where
  \<comment> \<open>conversion to \<^verbatim>\<open>unsigned int\<close>\<close>
  "uint_wrap x = x mod 4294967296"

definition INT_MIN :: int where "INT_MIN = - 2147483648"
definition INT_MAX :: int where "INT_MAX = 2147483647"

subsection \<open>Key bindings\<close>

definition KEY_EXIT :: char where "KEY_EXIT = CHR 0x18"
definition KEY_QUIT :: char where "KEY_QUIT = CHR 0x11"
definition KEY_PULSE :: char where "KEY_PULSE = CHR 0x10"
definition KEY_TOGGLE :: char where "KEY_TOGGLE = CHR 0x14"
definition KEY_BAUD_UP :: char where "KEY_BAUD_UP = CHR 0x15"
definition KEY_BAUD_DN :: char where "KEY_BAUD_DN = CHR 0x04"
definition KEY_FLOW :: char where "KEY_FLOW = CHR 0x06"
definition KEY_PARITY :: char where "KEY_PARITY = CHR 0x19"
definition KEY_BITS :: char where "KEY_BITS = CHR 0x02"
definition KEY_STATUS :: char where "KEY_STATUS = CHR 0x16"
definition KEY_SEND :: char where "KEY_SEND = CHR 0x13"
definition KEY_RECEIVE :: char where "KEY_RECEIVE = CHR 0x12"
definition KEY_BREAK :: char where "KEY_BREAK = CHR 0x1C"
definition KEY_TIMESTAMP :: char where "KEY_TIMESTAMP = CHR 0x09"

subsection \<open>The baud walker\<close>

definition baud_up :: "int \<Rightarrow> int" where
  "baud_up baud =
     (let baud = (if baud < 300 then 300
                  else if baud = 38400 then 57600
                  else int_wrap (baud * 2))
      in if baud > 115200 then 115200 else baud)"

definition baud_down :: "int \<Rightarrow> int" where
  "baud_down baud =
     (let baud = (if baud > 115200 then 115200
                  else if baud = 57600 then 38400
                  else baud sdiv 2)
      in if baud < 300 then 300 else baud)"

definition ladder :: "int list" where
  "ladder = [300, 600, 1200, 2400, 4800, 9600, 19200, 38400, 57600, 115200]"

subsection \<open>Option cycling\<close>

text \<open>
  \<^verbatim>\<open>enum flowcntrl_e\<close> and \<^verbatim>\<open>enum parity_e\<close> are declared in \<^verbatim>\<open>term.h\<close>; the constants
  below are the ones \<^verbatim>\<open>picocom.c\<close> names. The \<^verbatim>\<open>default:\<close> branches of \<^verbatim>\<open>flow_next\<close> and
  \<^verbatim>\<open>parity_next\<close> give the same result as the last named case. The C functions return the
  new value and store the matching label through a pointer: here they return the pair.
\<close>

datatype flowcntrl_e = FC_NONE | FC_RTSCTS | FC_XONXOFF

datatype parity_e = P_NONE | P_EVEN | P_ODD

fun flow_next :: "flowcntrl_e \<Rightarrow> flowcntrl_e \<times> string" where
  "flow_next FC_NONE = (FC_RTSCTS, ''RTS/CTS'')"
| "flow_next FC_RTSCTS = (FC_XONXOFF, ''xon/xoff'')"
| "flow_next FC_XONXOFF = (FC_NONE, ''none'')"

fun parity_next :: "parity_e \<Rightarrow> parity_e \<times> string" where
  "parity_next P_NONE = (P_EVEN, ''even'')"
| "parity_next P_EVEN = (P_ODD, ''odd'')"
| "parity_next P_ODD = (P_NONE, ''none'')"

definition bits_next :: "int \<Rightarrow> int" where
  "bits_next bits = (let bits = int_wrap (bits + 1) in if bits > 8 then 5 else bits)"

subsection \<open>Formatted output\<close>

text \<open>
  The conversions of \<^verbatim>\<open>printf\<close> that the program uses: \<^verbatim>\<open>%d\<close>, \<^verbatim>\<open>%02d\<close>, \<^verbatim>\<open>%03d\<close> and
  \<^verbatim>\<open>%x\<close>. \<^verbatim>\<open>fd_printf\<close> formats into a 256-byte buffer; every text the loop prints is
  far shorter, so the model writes the formatted text as it is.
\<close>

definition digit_char :: "nat \<Rightarrow> char" where
  "digit_char n = (if n < 16 then ''0123456789abcdef'' ! n else CHR ''?'')"

function show_base :: "nat \<Rightarrow> nat \<Rightarrow> string" where
  "show_base b n =
     (if b < 2 \<or> n < b then [digit_char n]
      else show_base b (n div b) @ [digit_char (n mod b)])"
  by pat_completeness auto
termination
  by (relation "measure snd") auto

declare show_base.simps [simp del]

definition fmt_d :: "int \<Rightarrow> string" where
  "fmt_d i = (if i < 0 then CHR ''-'' # show_base 10 (nat (- i)) else show_base 10 (nat i))"

definition fmt_0d :: "nat \<Rightarrow> int \<Rightarrow> string" where
  "fmt_0d w i =
     (let sign = (if i < 0 then [CHR ''-''] else []);
          ds = show_base 10 (nat \<bar>i\<bar>)
      in sign @ replicate (w - (length sign + length ds)) (CHR ''0'') @ ds)"

definition fmt_x :: "int \<Rightarrow> string" where
  \<comment> \<open>\<^verbatim>\<open>%x\<close> reads its argument as \<^verbatim>\<open>unsigned int\<close>\<close>
  "fmt_x i = show_base 16 (nat (uint_wrap i))"

definition crlf :: string where
  "crlf = [CHR 0x0D, CHR 0x0A]"

definition BEL :: char where
  "BEL = CHR 0x07"

subsection \<open>Session options and loop state\<close>

text \<open>
  The fields of \<^verbatim>\<open>opts\<close> that the loop reads or writes (\<^verbatim>\<open>port\<close>, \<^verbatim>\<open>noinit\<close>,
  \<^verbatim>\<open>noreset\<close> and \<^verbatim>\<open>nolock\<close> are used by \<^verbatim>\<open>main\<close> only).
\<close>

record opts =
  opts_baud :: int
  opts_flow :: flowcntrl_e
  opts_flow_str :: string
  opts_parity :: parity_e
  opts_parity_str :: string
  opts_databits :: int
  opts_escape :: char
  opts_send_cmd :: string
  opts_receive_cmd :: string

definition opts_init :: opts where
  "opts_init =
     \<lparr>opts_baud = 115200, opts_flow = FC_NONE, opts_flow_str = ''none'',
      opts_parity = P_NONE, opts_parity_str = ''none'', opts_databits = 8,
      opts_escape = CHR 0x01, opts_send_cmd = ''ascii_xfr -s -v -l10'',
      opts_receive_cmd = ''rz -vv''\<rparr>"

record timeval =
  tv_sec :: int
  tv_usec :: int

datatype ci_state = ST_COMMAND | ST_TRANSPARENT

text \<open>
  Calls that leave the program: the functions of the tty driver wrapper (\<^verbatim>\<open>term.c\<close>, all
  on \<^verbatim>\<open>tty_fd\<close> unless the name says otherwise) and \<^verbatim>\<open>run_cmd\<close> with its argument list.
  The state keeps them in call order.
\<close>

datatype call =
    Term_set_hupcl int | Term_flush | Term_apply | Term_erase
  | Term_pulse_dtr | Term_lower_dtr | Term_raise_dtr
  | Term_set_baudrate int | Term_set_flowcntrl flowcntrl_e
  | Term_set_parity parity_e | Term_set_databits int | Term_break
  | Term_reset_STO | Term_reset_STI | Term_apply_STI
  | Run_cmd "string list"

definition TTY_Q_SZ :: int where "TTY_Q_SZ = 256"

definition TTY_TIME_RESET :: int where "TTY_TIME_RESET = 2"
definition TTY_TIME_DISPLAY :: int where "TTY_TIME_DISPLAY = 1"
definition TTY_TIME_NONE :: int where "TTY_TIME_NONE = 0"

text \<open>
  The globals \<^verbatim>\<open>opts\<close>, \<^verbatim>\<open>tty_q\<close>, \<^verbatim>\<open>tty_time\<close>, \<^verbatim>\<open>tty_time_enable\<close> and the locals of
  \<^verbatim>\<open>loop\<close> that live across iterations. \<open>tty_q_buff\<close> is the memory at
  \<^verbatim>\<open>tty_q.buff\<close>, addressed by byte offset: offsets 0 to 255 are the array, offset 256 is the
  byte after it. \<open>sto\<close> collects every byte written to \<^verbatim>\<open>STO\<close>.
\<close>

record loop_st =
  opts :: opts
  tty_q_len :: int
  tty_q_buff :: "int \<Rightarrow> char"
  state :: ci_state
  dtr_up :: bool
  tty_time :: int
  tty_time_enable :: int
  tv_ref :: timeval
  fname :: "int \<Rightarrow> char"
  sto :: string
  calls :: "call list"

definition loop_entry :: "opts \<Rightarrow> timeval \<Rightarrow> (int \<Rightarrow> char) \<Rightarrow> loop_st" where
  \<comment> \<open>the state when \<^verbatim>\<open>loop\<close> reaches its \<^verbatim>\<open>for\<close>, no \<^verbatim>\<open>--timestamp\<close> given;
      \<^verbatim>\<open>tv_ref\<close> and \<^verbatim>\<open>fname\<close> are uninitialised locals, \<^verbatim>\<open>tty_q\<close> is a zeroed global\<close>
  "loop_entry os tv fn =
     \<lparr>opts = os, tty_q_len = 0, tty_q_buff = (\<lambda>_. CHR 0x00), state = ST_TRANSPARENT,
      dtr_up = False, tty_time = TTY_TIME_RESET, tty_time_enable = 2,
      tv_ref = tv, fname = fn, sto = [], calls = []\<rparr>"

definition fd_printf :: "string \<Rightarrow> loop_st \<Rightarrow> loop_st" where
  \<comment> \<open>\<^verbatim>\<open>fd_printf(STO, ...)\<close>, given the formatted text\<close>
  "fd_printf txt s = s\<lparr>sto := sto s @ txt\<rparr>"

definition do_call :: "call \<Rightarrow> loop_st \<Rightarrow> loop_st" where
  "do_call k s = s\<lparr>calls := calls s @ [k]\<rparr>"

text \<open>
  How a step ends: the loop goes on; \<^verbatim>\<open>loop\<close> returns; \<^verbatim>\<open>fatal\<close> ends the process; the
  step waits in a system call for input that has not come; or the step has called a library
  function in a way for which C defines no behaviour.
\<close>

datatype 'a outcome = Continue 'a | Return 'a | Fatal string 'a | Blocked 'a | Undefined 'a

definition fatal :: "string \<Rightarrow> loop_st \<Rightarrow> loop_st outcome" where
  "fatal msg s =
     Fatal msg (fd_printf crlf (fd_printf msg (fd_printf (crlf @ ''FATAL: '')
       (do_call Term_reset_STI (do_call Term_reset_STO s)))))"

subsection \<open>The filename prompt\<close>

text \<open>
  The result of one \<^verbatim>\<open>read(fdi, &c, 1)\<close>: a byte, end of input (\<^verbatim>\<open>read\<close> returns 0), or
  an error (\<^verbatim>\<open>read\<close> returns a negative value; the flag says whether \<^verbatim>\<open>errno\<close> is
  \<^verbatim>\<open>EINTR\<close>).
\<close>

datatype rd = Rd_byte char | Rd_eof | Rd_err bool

text \<open>
  The state of \<^verbatim>\<open>fd_readline\<close>: the memory at \<^verbatim>\<open>b\<close> by byte offset, the offset
  \<^verbatim>\<open>bp - b\<close>, and the bytes written to \<^verbatim>\<open>fdo\<close>. \<^verbatim>\<open>bpe\<close> is at offset \<open>bsz - 1\<close>.
  \<^verbatim>\<open>cput\<close> writes the first byte of an \<^verbatim>\<open>int\<close> holding the character: on a little-endian
  machine, the character.
\<close>

record rl_st =
  rl_b :: "int \<Rightarrow> char"
  rl_bp :: int
  rl_out :: string

definition cput :: "char \<Rightarrow> rl_st \<Rightarrow> rl_st" where
  "cput c st = st\<lparr>rl_out := rl_out st @ [c]\<rparr>"

definition rl_byte :: "int \<Rightarrow> char \<Rightarrow> rl_st \<Rightarrow> rl_st" where
  \<comment> \<open>the \<^verbatim>\<open>switch\<close> for a byte other than carriage return\<close>
  "rl_byte bsz c st =
     (if c = CHR 0x08 then
        (if rl_bp st > 0 then cput c (cput (CHR '' '') (cput c (st\<lparr>rl_bp := rl_bp st - 1\<rparr>)))
         else cput BEL st)
      else
        (if rl_bp st < bsz - 1 then
           cput c (st\<lparr>rl_b := (rl_b st)(rl_bp st := c), rl_bp := rl_bp st + 1\<rparr>)
         else cput BEL st))"

text \<open>
  The loop of \<^verbatim>\<open>fd_readline\<close> over the results of its successive reads. The result is the
  returned \<^verbatim>\<open>r\<close> (\<open>None\<close> when the reads run out before the function returns: it
  is still waiting in \<^verbatim>\<open>read\<close>), whether \<^verbatim>\<open>errno\<close> is \<^verbatim>\<open>EINTR\<close> after a failed
  read, and the final state.
\<close>

fun fd_readline :: "rd list \<Rightarrow> int \<Rightarrow> rl_st \<Rightarrow> int option \<times> bool \<times> rl_st" where
  "fd_readline [] bsz st = (None, False, st)"
| "fd_readline (Rd_eof # rs) bsz st = (Some (- 1), False, st)"
| "fd_readline (Rd_err eintr # rs) bsz st = (Some (- 2), eintr, st)"
| "fd_readline (Rd_byte c # rs) bsz st =
     (if c = CHR 0x0D then
        (Some (rl_bp st), False, st\<lparr>rl_b := (rl_b st)(rl_bp st := CHR 0x00)\<rparr>)
      else fd_readline rs bsz (rl_byte bsz c st))"

fun c_string :: "(int \<Rightarrow> char) \<Rightarrow> int \<Rightarrow> nat \<Rightarrow> string" where
  \<comment> \<open>the NUL-terminated string at an offset, within the given number of bytes\<close>
  "c_string m i 0 = []"
| "c_string m i (Suc k) = (if m i = CHR 0x00 then [] else m i # c_string m (i + 1) k)"

fun store :: "(int \<Rightarrow> char) \<Rightarrow> int \<Rightarrow> string \<Rightarrow> int \<Rightarrow> char" where
  \<comment> \<open>the memory after the bytes of a string are stored from an offset upward\<close>
  "store m i [] = m"
| "store m i (x # xs) = store (m(i := x)) (i + 1) xs"

subsection \<open>External programs\<close>

text \<open>
  What \<^verbatim>\<open>run_cmd\<close> sees in the parent: \<^verbatim>\<open>fork\<close> failed (with the text of
  \<^verbatim>\<open>strerror(errno)\<close>), the child exited with a status, or it ended abnormally (with the
  raw wait status).
\<close>

datatype child = Fork_failed string | Exited int | Abnormal int

definition run_cmd :: "child \<Rightarrow> string list \<Rightarrow> loop_st \<Rightarrow> loop_st" where
  "run_cmd ch args s =
     (let s = do_call (Run_cmd args) s in
      case ch of
        Fork_failed msg \<Rightarrow> fd_printf (''*** cannot fork: '' @ msg @ [CHR 0x0A]) s
      | Exited st \<Rightarrow>
          fd_printf (crlf @ ''*** exit status: '' @ fmt_d st @ crlf) (do_call Term_apply_STI s)
      | Abnormal r \<Rightarrow>
          fd_printf (crlf @ ''*** abnormal termination: 0x'' @ fmt_x r @ crlf)
            (do_call Term_apply_STI s))"

subsection \<open>The command interpreter\<close>

text \<open>
  What the environment answers during one command: whether \<^verbatim>\<open>term_apply(tty_fd)\<close>,
  \<^verbatim>\<open>term_raise_dtr\<close>/\<^verbatim>\<open>term_lower_dtr\<close> and \<^verbatim>\<open>term_pulse_dtr\<close> return a non-negative
  value, the reads that \<^verbatim>\<open>fd_readline\<close> makes, the fate of the child, and the text of
  \<^verbatim>\<open>strerror(errno)\<close>.
\<close>

record env =
  apply_ok :: bool
  dtr_ok :: bool
  pulse_ok :: bool
  reads :: "rd list"
  child_res :: child
  strerror :: string

definition enqueue :: "char \<Rightarrow> loop_st \<Rightarrow> loop_st" where
  \<comment> \<open>the queueing code, written out twice in \<^verbatim>\<open>loop\<close>\<close>
  "enqueue c s =
     (if tty_q_len s \<le> TTY_Q_SZ then
        s\<lparr>tty_q_buff := (tty_q_buff s)(tty_q_len s := c), tty_q_len := int_wrap (tty_q_len s + 1)\<rparr>
      else fd_printf [BEL] s)"

definition flush_q :: "loop_st \<Rightarrow> loop_st" where
  \<comment> \<open>\<^verbatim>\<open>tty_q.len = 0; term_flush(tty_fd);\<close>\<close>
  "flush_q s = do_call Term_flush (s\<lparr>tty_q_len := 0\<rparr>)"

definition prompt :: "env \<Rightarrow> loop_st \<Rightarrow> int option \<times> bool \<times> loop_st" where
  \<comment> \<open>\<^verbatim>\<open>r = fd_readline(STI, STO, fname, sizeof(fname)); fd_printf(STO, "\r\n");\<close>\<close>
  "prompt e s =
     (case fd_readline (reads e) 128 \<lparr>rl_b = fname s, rl_bp = 0, rl_out = []\<rparr> of
        (r, eintr, st) \<Rightarrow>
          (r, eintr,
           (case r of
              None \<Rightarrow> s\<lparr>fname := rl_b st, sto := sto s @ rl_out st\<rparr>
            | Some _ \<Rightarrow> fd_printf crlf (s\<lparr>fname := rl_b st, sto := sto s @ rl_out st\<rparr>))))"

definition command :: "env \<Rightarrow> char \<Rightarrow> loop_st \<Rightarrow> loop_st outcome" where
  \<comment> \<open>the inner \<^verbatim>\<open>switch (c)\<close> of the \<^verbatim>\<open>ST_COMMAND\<close> case\<close>
  "command e c s =
    (if c = KEY_EXIT then Return s
     else if c = KEY_QUIT then
       Return (do_call Term_erase (do_call Term_apply (do_call Term_flush
         (do_call (Term_set_hupcl 0) s))))
     else if c = KEY_STATUS then
       Continue
         (fd_printf (''*** timestamp: '' @ (if tty_time_enable s \<noteq> 0 then ''on'' else ''off'') @ crlf)
         (fd_printf (''*** dtr: '' @ (if dtr_up s then ''up'' else ''down'') @ crlf)
         (fd_printf (''*** databits: '' @ fmt_d (opts_databits (opts s)) @ crlf)
         (fd_printf (''*** parity: '' @ opts_parity_str (opts s) @ crlf)
         (fd_printf (''*** flow: '' @ opts_flow_str (opts s) @ crlf)
         (fd_printf (''*** baud: '' @ fmt_d (opts_baud (opts s)) @ crlf)
         (fd_printf crlf s)))))))
     else if c = KEY_PULSE then
       (let s = do_call Term_pulse_dtr (fd_printf (crlf @ ''*** pulse DTR ***'' @ crlf) s)
        in Continue (if \<not> pulse_ok e then fd_printf (''*** FAILED'' @ crlf) s else s))
     else if c = KEY_TOGGLE then
       (let s = (if dtr_up s then do_call Term_lower_dtr s else do_call Term_raise_dtr s);
            s = (if dtr_ok e then s\<lparr>dtr_up := \<not> dtr_up s\<rparr> else s)
        in Continue
             (fd_printf (crlf @ ''*** DTR: '' @ (if dtr_up s then ''up'' else ''down'') @ '' ***'' @ crlf) s))
     else if c = KEY_BAUD_UP then
       (let newbaud = baud_up (opts_baud (opts s));
            s = flush_q (do_call (Term_set_baudrate newbaud) s);
            s = do_call Term_apply s;
            s = (if apply_ok e then s\<lparr>opts := (opts s)\<lparr>opts_baud := newbaud\<rparr>\<rparr> else s)
        in Continue (fd_printf (crlf @ ''*** baud: '' @ fmt_d (opts_baud (opts s)) @ '' ***'' @ crlf) s))
     else if c = KEY_BAUD_DN then
       (let newbaud = baud_down (opts_baud (opts s));
            s = flush_q (do_call (Term_set_baudrate newbaud) s);
            s = do_call Term_apply s;
            s = (if apply_ok e then s\<lparr>opts := (opts s)\<lparr>opts_baud := newbaud\<rparr>\<rparr> else s)
        in Continue (fd_printf (crlf @ ''*** baud: '' @ fmt_d (opts_baud (opts s)) @ '' ***'' @ crlf) s))
     else if c = KEY_FLOW then
       (let (newflow, newflow_str) = flow_next (opts_flow (opts s));
            s = flush_q (do_call (Term_set_flowcntrl newflow) s);
            s = do_call Term_apply s;
            s = (if apply_ok e
                 then s\<lparr>opts := (opts s)\<lparr>opts_flow := newflow, opts_flow_str := newflow_str\<rparr>\<rparr>
                 else s)
        in Continue (fd_printf (crlf @ ''*** flow: '' @ opts_flow_str (opts s) @ '' ***'' @ crlf) s))
     else if c = KEY_PARITY then
       (let (newparity, newparity_str) = parity_next (opts_parity (opts s));
            s = flush_q (do_call (Term_set_parity newparity) s);
            s = do_call Term_apply s;
            s = (if apply_ok e
                 then s\<lparr>opts := (opts s)\<lparr>opts_parity := newparity, opts_parity_str := newparity_str\<rparr>\<rparr>
                 else s)
        in Continue (fd_printf (crlf @ ''*** parity: '' @ opts_parity_str (opts s) @ '' ***'' @ crlf) s))
     else if c = KEY_BITS then
       (let newbits = bits_next (opts_databits (opts s));
            s = flush_q (do_call (Term_set_databits newbits) s);
            s = do_call Term_apply s;
            s = (if apply_ok e then s\<lparr>opts := (opts s)\<lparr>opts_databits := newbits\<rparr>\<rparr> else s)
        in Continue
             (fd_printf (crlf @ ''*** databits: '' @ fmt_d (opts_databits (opts s)) @ '' ***'' @ crlf) s))
     else if c = KEY_SEND then
       (case prompt e (fd_printf (crlf @ ''*** file: '') s) of
          (None, eintr, s) \<Rightarrow> Blocked s
        | (Some r, eintr, s) \<Rightarrow>
            if r < - 1 \<and> eintr then Continue s
            else if r \<le> - 1 then fatal (''cannot read filename: '' @ strerror e) s
            else Continue (run_cmd (child_res e) [opts_send_cmd (opts s), c_string (fname s) 0 128] s))
     else if c = KEY_RECEIVE then
       (case prompt e (fd_printf ''*** file: '' s) of
          (None, eintr, s) \<Rightarrow> Blocked s
        | (Some r, eintr, s) \<Rightarrow>
            if r < - 1 \<and> eintr then Continue s
            else if r \<le> - 1 then fatal (''cannot read filename: '' @ strerror e) s
            else if fname s 0 \<noteq> CHR 0x00 then
              Continue (run_cmd (child_res e) [opts_send_cmd (opts s), c_string (fname s) 0 128] s)
            else Continue (run_cmd (child_res e) [opts_receive_cmd (opts s)] s))
     else if c = KEY_BREAK then
       Continue (fd_printf (crlf @ ''*** break sent ***'' @ crlf) (do_call Term_break s))
     else if c = KEY_TIMESTAMP then
       (if tty_time_enable s \<noteq> 0 then
          Continue (fd_printf (crlf @ ''*** Time Stamp Disable ***'' @ crlf) (s\<lparr>tty_time_enable := 0\<rparr>))
        else
          Continue (fd_printf (crlf @ ''*** Time Stamp Enable ***'' @ crlf)
            (s\<lparr>tty_time_enable := 1, tty_time := TTY_TIME_RESET\<rparr>)))
     else Continue s)"

definition ci_byte :: "env \<Rightarrow> char \<Rightarrow> loop_st \<Rightarrow> loop_st outcome" where
  \<comment> \<open>\<^verbatim>\<open>switch (state)\<close> on a byte read from the terminal\<close>
  "ci_byte e c s =
     (case state s of
        ST_COMMAND \<Rightarrow>
          (if c = opts_escape (opts s) then Continue (enqueue c (s\<lparr>state := ST_TRANSPARENT\<rparr>))
           else command e c (s\<lparr>state := ST_TRANSPARENT\<rparr>))
      | ST_TRANSPARENT \<Rightarrow>
          (if c = opts_escape (opts s) then Continue (s\<lparr>state := ST_COMMAND\<rparr>)
           else Continue (enqueue c s)))"

subsection \<open>The timestamp annotator\<close>

text \<open>
  The text that \<^verbatim>\<open>sprintf\<close> builds from the current time and the reference time.
  \<^verbatim>\<open>diff_sec\<close> and \<^verbatim>\<open>diff_msec\<close> are \<^verbatim>\<open>unsigned int\<close>; \<^verbatim>\<open>%d\<close> reads each
  argument as \<^verbatim>\<open>int\<close>. The two variables are assigned in the branches of one \<^verbatim>\<open>if\<close>;
  here each is a function of the two times.
\<close>

definition borrow :: "timeval \<Rightarrow> timeval \<Rightarrow> bool" where
  \<comment> \<open>\<^verbatim>\<open>tv.tv_usec/1000 < tv_ref.tv_usec/1000\<close>\<close>
  "borrow tv tref \<longleftrightarrow> tv_usec tv sdiv 1000 < tv_usec tref sdiv 1000"

definition diff_sec :: "timeval \<Rightarrow> timeval \<Rightarrow> int" where
  "diff_sec tv tref =
     (if borrow tv tref then uint_wrap (uint_wrap (tv_sec tv - tv_sec tref) - 1)
      else uint_wrap (tv_sec tv - tv_sec tref))"

definition diff_msec :: "timeval \<Rightarrow> timeval \<Rightarrow> int" where
  "diff_msec tv tref =
     (if borrow tv tref then uint_wrap ((1000 + tv_usec tv sdiv 1000) - tv_usec tref sdiv 1000)
      else uint_wrap ((tv_usec tv - tv_usec tref) sdiv 1000))"

definition stamp :: "timeval \<Rightarrow> timeval \<Rightarrow> string" where
  "stamp tv tref =
     [CHR 0x1B] @ ''[36m'' @ fmt_d (int_wrap (diff_sec tv tref div 60)) @ '':''
     @ fmt_0d 2 (int_wrap (diff_sec tv tref mod 60)) @ ''.''
     @ fmt_0d 3 (int_wrap (diff_msec tv tref)) @ '' '' @ [CHR 0x1B] @ ''[0m''"

definition is_newline :: "char \<Rightarrow> bool" where
  "is_newline c \<longleftrightarrow> c = CHR 0x0A \<or> c = CHR 0x0D"

definition timestamp :: "timeval \<Rightarrow> char \<Rightarrow> loop_st \<Rightarrow> loop_st" where
  \<comment> \<open>from \<^verbatim>\<open>if(tty_time_enable && tty_time)\<close> to the update of \<^verbatim>\<open>tty_time\<close> after
      it; \<open>tv\<close> is what \<^verbatim>\<open>gettimeofday\<close> gives\<close>
  "timestamp tv c s =
     (let s = (if tty_time_enable s \<noteq> 0 \<and> tty_time s \<noteq> 0 then
                 (let s = (if tty_time s = TTY_TIME_RESET then s\<lparr>tv_ref := tv\<rparr> else s)
                  in if \<not> is_newline c
                     then (fd_printf (stamp tv (tv_ref s)) s)\<lparr>tty_time := TTY_TIME_NONE\<rparr>
                     else s)
               else s)
      in if is_newline c then s\<lparr>tty_time := TTY_TIME_DISPLAY\<rparr> else s)"

subsection \<open>The three handlers of an iteration\<close>

definition on_sti :: "rd \<Rightarrow> env \<Rightarrow> loop_st \<Rightarrow> loop_st outcome" where
  \<comment> \<open>\<^verbatim>\<open>STI\<close> is readable; the read is retried while it is interrupted, \<open>r\<close> is its
      final result\<close>
  "on_sti r e s =
     (case r of
        Rd_eof \<Rightarrow> fatal ''stdin closed'' s
      | Rd_err _ \<Rightarrow> fatal (''read from stdin failed: '' @ strerror e) s
      | Rd_byte c \<Rightarrow> ci_byte e c s)"

text \<open>
  The write of the received byte to \<^verbatim>\<open>STO\<close> is repeated while \<^verbatim>\<open>errno\<close> is
  \<^verbatim>\<open>EAGAIN\<close>, \<^verbatim>\<open>EWOULDBLOCK\<close> or \<^verbatim>\<open>EINTR\<close>. Each attempt is the value \<^verbatim>\<open>write\<close>
  returns and whether \<^verbatim>\<open>errno\<close> then has one of these values. The result is the last
  \<^verbatim>\<open>n\<close>, or \<open>None\<close> while the attempts have not come to an end.
\<close>

fun write_STO :: "(int \<times> bool) list \<Rightarrow> char \<Rightarrow> loop_st \<Rightarrow> int option \<times> loop_st" where
  "write_STO [] c s = (None, s)"
| "write_STO ((n, again) # ws) c s =
     (let s = (if n > 0 then fd_printf [c] s else s)
      in if again then write_STO ws c s else (Some n, s))"

record tty_in =
  ti_read :: rd
  ti_tv :: timeval
  ti_writes :: "(int \<times> bool) list"
  ti_strerror :: string

definition on_tty_rd :: "tty_in \<Rightarrow> loop_st \<Rightarrow> loop_st outcome" where
  "on_tty_rd t s =
     (case ti_read t of
        Rd_eof \<Rightarrow> fatal ''term closed'' s
      | Rd_err _ \<Rightarrow> fatal (''read from term failed: '' @ ti_strerror t) s
      | Rd_byte c \<Rightarrow>
          (case write_STO (ti_writes t) c (timestamp (ti_tv t) c s) of
             (None, s) \<Rightarrow> Blocked s
           | (Some n, s) \<Rightarrow>
               if n \<le> 0 then fatal (''write to stdout failed: '' @ ti_strerror t) s
               else Continue s))"

text \<open>
  \<^verbatim>\<open>memcpy(dst, src, k)\<close> on a memory addressed by byte offset. C defines the result only
  when the two regions of \<open>k\<close> bytes do not overlap; then every order of copying gives the
  same memory, here the one from the lowest address up. When they overlap the call has no
  defined behaviour: \<open>None\<close>. \<open>copy_up\<close> and \<open>copy_down\<close> are the two plain
  byte-by-byte copies a library may run, from the low end and from the high end.
\<close>

fun copy_up :: "(int \<Rightarrow> char) \<Rightarrow> int \<Rightarrow> int \<Rightarrow> nat \<Rightarrow> int \<Rightarrow> char" where
  "copy_up m dst src 0 = m"
| "copy_up m dst src (Suc k) = copy_up (m(dst := m src)) (dst + 1) (src + 1) k"

fun copy_down :: "(int \<Rightarrow> char) \<Rightarrow> int \<Rightarrow> int \<Rightarrow> nat \<Rightarrow> int \<Rightarrow> char" where
  "copy_down m dst src 0 = m"
| "copy_down m dst src (Suc k) = copy_down (m(dst + int k := m (src + int k))) dst src k"

definition regions_overlap :: "int \<Rightarrow> int \<Rightarrow> nat \<Rightarrow> bool" where
  "regions_overlap dst src k \<longleftrightarrow> 0 < k \<and> \<bar>dst - src\<bar> < int k"

definition memcpy :: "(int \<Rightarrow> char) \<Rightarrow> int \<Rightarrow> int \<Rightarrow> nat \<Rightarrow> (int \<Rightarrow> char) option" where
  "memcpy m dst src k = (if regions_overlap dst src k then None else Some (copy_up m dst src k))"

definition on_tty_wr :: "int \<Rightarrow> string \<Rightarrow> loop_st \<Rightarrow> loop_st outcome" where
  \<comment> \<open>\<^verbatim>\<open>tty_fd\<close> is writable; \<open>n\<close> is what \<^verbatim>\<open>write(tty_fd, tty_q.buff, tty_q.len)\<close>
      returns after the retries on \<^verbatim>\<open>EINTR\<close>\<close>
  "on_tty_wr n err s =
     (if n \<le> 0 then fatal (''write to term failed: '' @ err) s
      else case memcpy (tty_q_buff s) 0 n (nat (tty_q_len s - n)) of
             None \<Rightarrow> Undefined s
           | Some m \<Rightarrow> Continue (s\<lparr>tty_q_buff := m, tty_q_len := int_wrap (tty_q_len s - n)\<rparr>))"

definition queued :: "loop_st \<Rightarrow> string" where
  \<comment> \<open>the bytes waiting in the queue, in the order \<^verbatim>\<open>write\<close> would send them\<close>
  "queued s = map (tty_q_buff s) [0 .. tty_q_len s - 1]"

subsection \<open>The loop\<close>

text \<open>
  One pass of the \<^verbatim>\<open>for (;;)\<close>: whether \<^verbatim>\<open>select\<close> fails (with the text of the fatal
  message), and for each descriptor that \<^verbatim>\<open>select\<close> reports ready, what the system call
  on it gives. \<^verbatim>\<open>tty_fd\<close> is in the write set only when the queue is not empty at the top
  of the pass.
\<close>

record pass =
  p_select_failed :: "string option"
  p_sti :: "(rd \<times> env) option"
  p_tty_rd :: "tty_in option"
  p_tty_wr :: "(int \<times> string) option"

fun and_then :: "'a outcome \<Rightarrow> ('a \<Rightarrow> 'a outcome) \<Rightarrow> 'a outcome" where
  "and_then (Continue s) f = f s"
| "and_then (Return s) f = Return s"
| "and_then (Fatal msg s) f = Fatal msg s"
| "and_then (Blocked s) f = Blocked s"
| "and_then (Undefined s) f = Undefined s"

definition loop_pass :: "pass \<Rightarrow> loop_st \<Rightarrow> loop_st outcome" where
  "loop_pass p s =
     (let wr_set = (tty_q_len s \<noteq> 0) in
      case p_select_failed p of
        Some msg \<Rightarrow> fatal (''select failed: '' @ msg) s
      | None \<Rightarrow>
          and_then
            (and_then
               (case p_sti p of None \<Rightarrow> Continue s | Some (r, e) \<Rightarrow> on_sti r e s)
               (\<lambda>s. case p_tty_rd p of None \<Rightarrow> Continue s | Some t \<Rightarrow> on_tty_rd t s))
            (\<lambda>s. case p_tty_wr p of
                    None \<Rightarrow> Continue s
                  | Some (n, err) \<Rightarrow> if wr_set then on_tty_wr n err s else Continue s))"

fun loop :: "pass list \<Rightarrow> loop_st \<Rightarrow> loop_st outcome" where
  \<comment> \<open>the loop over the passes that the environment drives; \<open>Continue\<close> when they
      are used up and the loop waits in \<^verbatim>\<open>select\<close>\<close>
  "loop [] s = Continue s"
| "loop (p # ps) s = and_then (loop_pass p s) (loop ps)"

subsection \<open>Runs of the loop\<close>

fun outcome_state :: "'a outcome \<Rightarrow> 'a" where
  "outcome_state (Continue s) = s"
| "outcome_state (Return s) = s"
| "outcome_state (Fatal msg s) = s"
| "outcome_state (Blocked s) = s"
| "outcome_state (Undefined s) = s"

fun continues :: "'a outcome \<Rightarrow> bool" where
  "continues (Continue s) = True"
| "continues (Return s) = False"
| "continues (Fatal msg s) = False"
| "continues (Blocked s) = False"
| "continues (Undefined s) = False"

definition env_of :: "bool \<Rightarrow> env" where
  \<comment> \<open>an environment in which every driver call succeeds, or every one fails; nothing is
      typed at a prompt\<close>
  "env_of ok =
     \<lparr>apply_ok = ok, dtr_ok = ok, pulse_ok = ok, reads = [], child_res = Exited 0,
      strerror = []\<rparr>"

definition key_pass :: "env \<Rightarrow> char \<Rightarrow> pass" where
  \<comment> \<open>a pass in which only the terminal is ready and delivers one byte\<close>
  "key_pass e c =
     \<lparr>p_select_failed = None, p_sti = Some (Rd_byte c, e), p_tty_rd = None, p_tty_wr = None\<rparr>"

definition serial_pass :: "timeval \<times> char \<Rightarrow> pass" where
  \<comment> \<open>a pass in which only the port is readable and delivers one byte at the given time;
      the write to the screen succeeds at once\<close>
  "serial_pass ev =
     \<lparr>p_select_failed = None, p_sti = None,
      p_tty_rd = Some \<lparr>ti_read = Rd_byte (snd ev), ti_tv = fst ev, ti_writes = [(1, False)],
                       ti_strerror = []\<rparr>,
      p_tty_wr = None\<rparr>"

definition run_cmds :: "loop_st \<Rightarrow> string list list" where
  \<comment> \<open>the argument lists of the calls of \<^verbatim>\<open>run_cmd\<close> so far\<close>
  "run_cmds s = concat (map (\<lambda>k. case k of Run_cmd args \<Rightarrow> [args] | _ \<Rightarrow> []) (calls s))"

definition entry0 :: loop_st where
  \<comment> \<open>the loop entered with the default options; the uninitialised locals hold zeros\<close>
  "entry0 = loop_entry opts_init \<lparr>tv_sec = 0, tv_usec = 0\<rparr> (\<lambda>_. CHR 0x00)"

definition abc_queued :: loop_st where
  \<comment> \<open>the same with the three bytes \<open>abc\<close> waiting in the queue\<close>
  "abc_queued =
     entry0\<lparr>tty_q_len := 3,
            tty_q_buff := (\<lambda>_. CHR 0x00)(0 := CHR ''a'', 1 := CHR ''b'', 2 := CHR ''c'')\<rparr>"

definition ts_off :: loop_st where
  \<comment> \<open>timestamping switched off, Command state, \<^verbatim>\<open>tv_ref\<close> holding 10.000 s\<close>
  "ts_off = entry0\<lparr>state := ST_COMMAND, tty_time_enable := 0,
                    tv_ref := \<lparr>tv_sec = 10, tv_usec = 0\<rparr>\<rparr>"

definition xy_events :: "(timeval \<times> char) list" where
  \<comment> \<open>the port delivers \<open>X\<close> and a line feed at 10.250 s, then \<open>Y\<close> at 10.500 s\<close>
  "xy_events =
     [(\<lparr>tv_sec = 10, tv_usec = 250000\<rparr>, CHR ''X''),
      (\<lparr>tv_sec = 10, tv_usec = 250000\<rparr>, CHR 0x0A),
      (\<lparr>tv_sec = 10, tv_usec = 500000\<rparr>, CHR ''Y'')]"

definition typing :: "string \<Rightarrow> env" where
  \<comment> \<open>at a prompt the user types the given bytes and a carriage return; every driver call
      succeeds and the child exits with status 0\<close>
  "typing name = (env_of True)\<lparr>reads := map Rd_byte name @ [Rd_byte (CHR 0x0D)]\<rparr>"

definition after_escape :: loop_st where
  \<comment> \<open>the default entry state after the escape byte has been typed\<close>
  "after_escape = entry0\<lparr>state := ST_COMMAND\<rparr>"

subsection \<open>Specification-level descriptions\<close>

text \<open>
  The annotated stream as section 4.4 of the specification words it: every newline byte is
  passed on and makes the next other byte the first of its line; the first byte of a line
  that is not a newline is preceded by one prefix, computed against the reference time.
\<close>

fun annotated :: "timeval \<Rightarrow> bool \<Rightarrow> (timeval \<times> char) list \<Rightarrow> string" where
  "annotated tref fresh [] = []"
| "annotated tref fresh ((tv, c) # es) =
     (if is_newline c then c # annotated tref True es
      else (if fresh then stamp tv tref else []) @ c # annotated tref False es)"

text \<open>
  The text between \<^verbatim>\<open>"\r\n"\<close> and \<^verbatim>\<open>" ***\r\n"\<close> in the line that a reconfiguration key
  prints: the setting the key acts on, with the value the given options hold.
\<close>

definition report :: "char \<Rightarrow> opts \<Rightarrow> string" where
  "report c os =
     (if c = KEY_BAUD_UP \<or> c = KEY_BAUD_DN then ''*** baud: '' @ fmt_d (opts_baud os)
      else if c = KEY_FLOW then ''*** flow: '' @ opts_flow_str os
      else if c = KEY_PARITY then ''*** parity: '' @ opts_parity_str os
      else ''*** databits: '' @ fmt_d (opts_databits os))"

definition reconf_keys :: "char list" where
  "reconf_keys = [KEY_BAUD_UP, KEY_BAUD_DN, KEY_FLOW, KEY_PARITY, KEY_BITS]"

section \<open>Properties of the baud walker\<close>

lemmas key_defs = KEY_EXIT_def KEY_QUIT_def KEY_PULSE_def KEY_TOGGLE_def KEY_BAUD_UP_def
  KEY_BAUD_DN_def KEY_FLOW_def KEY_PARITY_def KEY_BITS_def KEY_STATUS_def KEY_SEND_def
  KEY_RECEIVE_def KEY_BREAK_def KEY_TIMESTAMP_def

lemma int_wrap_id: "INT_MIN \<le> x \<Longrightarrow> x \<le> INT_MAX \<Longrightarrow> int_wrap x = x"
  by (simp add: int_wrap_def INT_MIN_def INT_MAX_def)

lemma int_wrap_high:
  "INT_MAX < x \<Longrightarrow> x \<le> 4294967295 \<Longrightarrow> int_wrap x = x - 4294967296"
proof -
  assume a: "INT_MAX < x" and b: "x \<le> 4294967295"
  have "(x + 2147483648) mod 4294967296 = x + 2147483648 - 4294967296"
    using a b by (simp add: INT_MAX_def mod_pos_geq)
  then show ?thesis by (simp add: int_wrap_def)
qed

text \<open>
  Claim C6. Walking one step down the ladder and one step up again returns to the start,
  for every rung except the two ends; and at the boundaries \<open>baud_up 115200 = 115200\<close>,
  \<open>baud_down 300 = 300\<close>, \<open>baud_up 200 = 300\<close>, \<open>baud_up 38400 = 57600\<close>.
\<close>

theorem baud_ladder_roundtrip:
  "(\<forall>b \<in> set (butlast (tl ladder)). baud_up (baud_down b) = b)
   \<and> baud_up 115200 = 115200 \<and> baud_down 300 = 300
   \<and> baud_up 200 = 300 \<and> baud_up 38400 = 57600"
  by (simp add: ladder_def baud_up_def baud_down_def int_wrap_def signed_divide_int_def)

theorem baud_ladder_roundtrip_witness:
  "9600 \<in> set (butlast (tl ladder)) \<and> baud_up (baud_down 9600) = 9600"
  using baud_ladder_roundtrip by (simp add: ladder_def)




lemma baud_up_high:
  assumes "1073741824 \<le> b" and "b \<le> INT_MAX"
  shows "baud_up b < 0"
proof -
  have "int_wrap (b * 2) = b * 2 - 4294967296"
    using assms by (intro int_wrap_high) (simp_all add: INT_MAX_def)
  then show ?thesis using assms by (simp add: baud_up_def INT_MAX_def)
qed

section \<open>The filename prompt\<close>

lemma rl_byte_inv:
  "0 \<le> rl_bp st \<Longrightarrow> rl_bp st \<le> bsz - 1 \<Longrightarrow>
   0 \<le> rl_bp (rl_byte bsz c st) \<and> rl_bp (rl_byte bsz c st) \<le> bsz - 1
   \<and> (\<forall>i. i < 0 \<or> bsz - 1 \<le> i \<longrightarrow> rl_b (rl_byte bsz c st) i = rl_b st i)"
  by (simp add: rl_byte_def cput_def)

lemma fd_readline_inv:
  "0 \<le> rl_bp st \<Longrightarrow> rl_bp st \<le> bsz - 1 \<Longrightarrow> fd_readline rs bsz st = (r, e, st') \<Longrightarrow>
   0 \<le> rl_bp st' \<and> rl_bp st' \<le> bsz - 1
   \<and> (\<forall>i. i < 0 \<or> bsz \<le> i \<longrightarrow> rl_b st' i = rl_b st i)
   \<and> (rl_b st' (bsz - 1) = rl_b st (bsz - 1) \<or> rl_b st' (bsz - 1) = CHR 0x00)
   \<and> (\<forall>n. r = Some n \<longrightarrow> 0 \<le> n \<and> n \<le> bsz - 1 \<or> n = - 1 \<or> n = - 2)"
proof (induction rs bsz st rule: fd_readline.induct)
  case (1 bsz st)
  then show ?case by simp
next
  case (2 rs bsz st)
  then show ?case by auto
next
  case (3 eintr rs bsz st)
  then show ?case by auto
next
  case (4 c rs bsz st)
  show ?case
  proof (cases "c = CHR 0x0D")
    case True
    with 4 show ?thesis by auto
  next
    case False
    note inv = rl_byte_inv [OF "4.prems"(1,2), of c]
    from False "4.prems"(3) have run: "fd_readline rs bsz (rl_byte bsz c st) = (r, e, st')"
      by simp
    from "4.IH" [OF False _ _ run] inv show ?thesis by auto
  qed
qed

text \<open>
  Claim C10. A call of \<open>fd_readline\<close> with \<open>bsz \<ge> 1\<close> starts with \<open>bp\<close> at offset 0.
  Whatever the reads deliver and wherever the run stands, at most \<open>bsz - 1\<close> bytes are in
  the buffer, no byte outside offsets \<open>0 .. bsz - 1\<close> is touched, the last cell can only
  receive the terminating NUL, and a returned length is at most \<open>bsz - 1\<close>. A byte that
  arrives when \<open>bsz - 1\<close> bytes are stored is answered with BEL and the state is otherwise
  as before; so is a backspace that arrives when nothing is stored.
\<close>

theorem fd_readline_bounded:
  assumes "1 \<le> bsz"
  shows "(case fd_readline rs bsz \<lparr>rl_b = b, rl_bp = 0, rl_out = out\<rparr> of
            (r, e, st') \<Rightarrow>
              0 \<le> rl_bp st' \<and> rl_bp st' \<le> bsz - 1
              \<and> (\<forall>i. i < 0 \<or> bsz \<le> i \<longrightarrow> rl_b st' i = b i)
              \<and> (rl_b st' (bsz - 1) = b (bsz - 1) \<or> rl_b st' (bsz - 1) = CHR 0x00)
              \<and> (\<forall>n. r = Some n \<longrightarrow> n \<le> bsz - 1))
         \<and> (\<forall>c st rs'. rl_bp st = bsz - 1 \<and> c \<noteq> CHR 0x08 \<and> c \<noteq> CHR 0x0D \<longrightarrow>
               fd_readline (Rd_byte c # rs') bsz st
                 = fd_readline rs' bsz (st\<lparr>rl_out := rl_out st @ [BEL]\<rparr>))
         \<and> (\<forall>st rs'. rl_bp st = 0 \<longrightarrow>
               fd_readline (Rd_byte (CHR 0x08) # rs') bsz st
                 = fd_readline rs' bsz (st\<lparr>rl_out := rl_out st @ [BEL]\<rparr>))"
proof -
  obtain r e st' where run: "fd_readline rs bsz \<lparr>rl_b = b, rl_bp = 0, rl_out = out\<rparr> = (r, e, st')"
    by (cases "fd_readline rs bsz \<lparr>rl_b = b, rl_bp = 0, rl_out = out\<rparr>") auto
  have "0 \<le> rl_bp st' \<and> rl_bp st' \<le> bsz - 1
      \<and> (\<forall>i. i < 0 \<or> bsz \<le> i \<longrightarrow> rl_b st' i = b i)
      \<and> (rl_b st' (bsz - 1) = b (bsz - 1) \<or> rl_b st' (bsz - 1) = CHR 0x00)
      \<and> (\<forall>n. r = Some n \<longrightarrow> n \<le> bsz - 1)"
    using fd_readline_inv [OF _ _ run] assms by auto
  moreover have "fd_readline (Rd_byte c # rs') bsz st
                 = fd_readline rs' bsz (st\<lparr>rl_out := rl_out st @ [BEL]\<rparr>)"
    if "rl_bp st = bsz - 1" "c \<noteq> CHR 0x08" "c \<noteq> CHR 0x0D" for c st rs'
    using that by (simp add: rl_byte_def cput_def)
  moreover have "fd_readline (Rd_byte (CHR 0x08) # rs') bsz st
                 = fd_readline rs' bsz (st\<lparr>rl_out := rl_out st @ [BEL]\<rparr>)"
    if "rl_bp st = 0" for st rs'
    using that by (simp add: rl_byte_def cput_def)
  ultimately show ?thesis using run by simp
qed

theorem fd_readline_bounded_witness:
  "(1::int) \<le> 3
   \<and> fd_readline [Rd_byte (CHR 0x08), Rd_byte (CHR ''a''), Rd_byte (CHR ''b''),
                   Rd_byte (CHR ''c''), Rd_byte (CHR 0x0D)] 3
        \<lparr>rl_b = (\<lambda>_. CHR ''#''), rl_bp = 0, rl_out = []\<rparr>
     = (Some 2, False,
        \<lparr>rl_b = (\<lambda>_. CHR ''#'')(0 := CHR ''a'', 1 := CHR ''b'', 2 := CHR 0x00), rl_bp = 2,
         rl_out = [BEL, CHR ''a'', CHR ''b'', BEL]\<rparr>)"
  using fd_readline_bounded [where bsz = 3 and b = "\<lambda>_. CHR ''#''" and out = "[]"
      and rs = "[Rd_byte (CHR 0x08), Rd_byte (CHR ''a''), Rd_byte (CHR ''b''),
                 Rd_byte (CHR ''c''), Rd_byte (CHR 0x0D)]"]
  by (simp add: rl_byte_def cput_def BEL_def)

section \<open>The outbound queue\<close>

lemma copy_up_shift:
  "dst \<le> src \<Longrightarrow>
   copy_up m dst src k i = (if dst \<le> i \<and> i < dst + int k then m (i + (src - dst)) else m i)"
proof (induction k arbitrary: m dst src)
  case 0
  then show ?case by auto
next
  case (Suc k)
  have step: "copy_up (m(dst := m src)) (dst + 1) (src + 1) k i =
      (if dst + 1 \<le> i \<and> i < dst + 1 + int k
       then (m(dst := m src)) (i + (src + 1 - (dst + 1))) else (m(dst := m src)) i)"
    using Suc.prems by (intro Suc.IH) simp
  show ?case
    unfolding copy_up.simps step using Suc.prems by auto
qed

lemma copy_down_disjoint:
  "dst + int k \<le> src \<Longrightarrow>
   copy_down m dst src k i = (if dst \<le> i \<and> i < dst + int k then m (i + (src - dst)) else m i)"
proof (induction k arbitrary: m)
  case 0
  then show ?case by auto
next
  case (Suc k)
  let ?m = "m(dst + int k := m (src + int k))"
  have step: "copy_down ?m dst src k i =
      (if dst \<le> i \<and> i < dst + int k then ?m (i + (src - dst)) else ?m i)"
    using Suc.prems by (intro Suc.IH) simp
  show ?case
    unfolding copy_down.simps step using Suc.prems by (auto simp: add.commute)
qed

lemma queued_nth: "k < nat (tty_q_len s) \<Longrightarrow> queued s ! k = tty_q_buff s (int k)"
  by (simp add: queued_def)

lemma queued_length: "length (queued s) = nat (tty_q_len s)"
  by (simp add: queued_def)

lemma enqueue_room:
  "0 \<le> tty_q_len s \<Longrightarrow> tty_q_len s \<le> TTY_Q_SZ \<Longrightarrow>
   enqueue c s = s\<lparr>tty_q_buff := (tty_q_buff s)(tty_q_len s := c), tty_q_len := tty_q_len s + 1\<rparr>"
  by (simp add: enqueue_def TTY_Q_SZ_def int_wrap_def)

lemma queued_append:
  "0 \<le> tty_q_len s \<Longrightarrow>
   queued (s\<lparr>tty_q_buff := (tty_q_buff s)(tty_q_len s := c), tty_q_len := tty_q_len s + 1\<rparr>)
     = queued s @ [c]"
  by (simp add: queued_def upto_rec2)

lemma on_tty_wr_disjoint:
  assumes "1 \<le> n" and "n \<le> tty_q_len s" and "tty_q_len s \<le> INT_MAX"
    and "tty_q_len s \<le> 2 * n"
  shows "continues (on_tty_wr n err s)
      \<and> tty_q_len (outcome_state (on_tty_wr n err s)) = tty_q_len s - n
      \<and> (\<forall>i. 0 \<le> i \<and> i < tty_q_len s - n \<longrightarrow>
            tty_q_buff (outcome_state (on_tty_wr n err s)) i = tty_q_buff s (i + n))
      \<and> queued (outcome_state (on_tty_wr n err s)) = drop (nat n) (queued s)
      \<and> outcome_state (on_tty_wr n err s)
          = s\<lparr>tty_q_buff := tty_q_buff (outcome_state (on_tty_wr n err s)),
               tty_q_len := tty_q_len s - n\<rparr>"
proof -
  define s' where "s' = s\<lparr>tty_q_buff := copy_up (tty_q_buff s) 0 n (nat (tty_q_len s - n)),
           tty_q_len := int_wrap (tty_q_len s - n)\<rparr>"
  have wrap: "int_wrap (tty_q_len s - n) = tty_q_len s - n"
    using assms by (intro int_wrap_id) (simp_all add: INT_MIN_def INT_MAX_def)
  have apart: "\<not> regions_overlap 0 n (nat (tty_q_len s - n))"
    using assms by (simp add: regions_overlap_def)
  have run: "on_tty_wr n err s = Continue s'"
    using assms(1) apart by (simp add: on_tty_wr_def memcpy_def s'_def)
  have len: "tty_q_len s' = tty_q_len s - n"
    by (simp add: s'_def wrap)
  have cells: "tty_q_buff s' i = tty_q_buff s (i + n)" if "0 \<le> i" "i < tty_q_len s - n" for i
    using that assms by (simp add: s'_def copy_up_shift)
  have fifo: "queued s' = drop (nat n) (queued s)"
  proof (rule nth_equalityI)
    show "length (queued s') = length (drop (nat n) (queued s))"
      using assms by (simp add: queued_length len)
  next
    fix k assume "k < length (queued s')"
    then have k: "int k < tty_q_len s - n" by (simp add: queued_length len)
    then have "queued s' ! k = tty_q_buff s (int k + n)"
      using cells [of "int k"] by (simp add: queued_nth len)
    moreover have "drop (nat n) (queued s) ! k = tty_q_buff s (int k + n)"
      using k assms by (simp add: queued_length queued_nth nat_add_distrib add.commute)
    ultimately show "queued s' ! k = drop (nat n) (queued s) ! k" by simp
  qed
  have rest: "s' = s\<lparr>tty_q_buff := tty_q_buff s', tty_q_len := tty_q_len s - n\<rparr>"
    by (simp add: s'_def wrap)
  show ?thesis
    unfolding run outcome_state.simps continues.simps
    using len cells fifo rest by blast
qed

lemma abc_queued_facts:
  "tty_q_len abc_queued = 3" "queued abc_queued = ''abc''"
  "tty_q_buff abc_queued = (\<lambda>_. CHR 0x00)(0 := CHR ''a'', 1 := CHR ''b'', 2 := CHR ''c'')"
  by (simp add: abc_queued_def, code_simp, simp add: abc_queued_def)

text \<open>
  Claim C8, at the input where the code leaves it. The queue holds \<open>abc\<close> and \<^verbatim>\<open>write\<close>
  reports one byte written. The shift is \<^verbatim>\<open>memcpy(tty_q.buff, tty_q.buff + 1, 2)\<close>: the
  two bytes read and the two bytes written share offset 1, so the call has no defined
  behaviour and the step has no defined result. A library that copies from the low end
  leaves \<open>bc\<close> at the front of the queue, as the claim wants; one that copies from the high
  end leaves \<open>cc\<close>. The regions overlap whenever fewer than half of the queued bytes were
  written; the shift needs \<^verbatim>\<open>memmove\<close>.
\<close>

theorem queue_shift_overlap:
  "queued abc_queued = ''abc'' \<and> (1::int) \<le> 1 \<and> 1 \<le> tty_q_len abc_queued
   \<and> regions_overlap 0 1 (nat (tty_q_len abc_queued - 1))
   \<and> memcpy (tty_q_buff abc_queued) 0 1 (nat (tty_q_len abc_queued - 1)) = None
   \<and> on_tty_wr 1 [] abc_queued = Undefined abc_queued
   \<and> \<not> continues (on_tty_wr 1 [] abc_queued)
   \<and> map (copy_up (tty_q_buff abc_queued) 0 1 2) [0, 1] = ''bc''
   \<and> map (copy_down (tty_q_buff abc_queued) 0 1 2) [0, 1] = ''cc''"
proof -
  have ov: "regions_overlap 0 1 (nat (tty_q_len abc_queued - 1))"
    by (simp add: abc_queued_facts(1) regions_overlap_def)
  then have cp: "memcpy (tty_q_buff abc_queued) 0 1 (nat (tty_q_len abc_queued - 1)) = None"
    by (simp add: memcpy_def)
  then have run: "on_tty_wr 1 [] abc_queued = Undefined abc_queued"
    by (simp add: on_tty_wr_def)
  have up: "map (copy_up (tty_q_buff abc_queued) 0 1 2) [0, 1] = ''bc''"
    by (simp add: abc_queued_facts(3) numeral_2_eq_2)
  have down: "map (copy_down (tty_q_buff abc_queued) 0 1 2) [0, 1] = ''cc''"
    by (simp add: abc_queued_facts(3) numeral_2_eq_2)
  show ?thesis
    unfolding run using ov cp up down by (simp add: abc_queued_facts(1,2))
qed

text \<open>
  Claim C5. In Transparent state with room in the queue, typing the escape byte twice puts
  exactly one escape byte at the end of the queue and leaves the interpreter in Transparent
  state. The state after the two bytes differs from the state before in the queue only:
  options, screen output, driver calls, DTR flag and timestamp mode are as before, so no
  command has run. This holds for every escape byte and whatever the environment answers.
\<close>

theorem escape_escape:
  assumes "state s = ST_TRANSPARENT" and "0 \<le> tty_q_len s" and "tty_q_len s < TTY_Q_SZ"
    and "E = opts_escape (opts s)"
  shows "and_then (ci_byte e1 E s) (ci_byte e2 E)
           = Continue (s\<lparr>tty_q_buff := (tty_q_buff s)(tty_q_len s := E),
                         tty_q_len := tty_q_len s + 1\<rparr>)
         \<and> queued (outcome_state (and_then (ci_byte e1 E s) (ci_byte e2 E))) = queued s @ [E]
         \<and> state (outcome_state (and_then (ci_byte e1 E s) (ci_byte e2 E))) = ST_TRANSPARENT"
proof -
  have first: "ci_byte e1 E s = Continue (s\<lparr>state := ST_COMMAND\<rparr>)"
    using assms by (simp add: ci_byte_def)
  have second: "ci_byte e2 E (s\<lparr>state := ST_COMMAND\<rparr>) = Continue (enqueue E s)"
    using assms by (simp add: ci_byte_def enqueue_def)
  have "enqueue E s = s\<lparr>tty_q_buff := (tty_q_buff s)(tty_q_len s := E), tty_q_len := tty_q_len s + 1\<rparr>"
    using assms by (intro enqueue_room) simp_all
  with first second queued_append [OF assms(2), of E] assms(1) show ?thesis by simp
qed

theorem escape_escape_witness:
  "state entry0 = ST_TRANSPARENT \<and> 0 \<le> tty_q_len entry0 \<and> tty_q_len entry0 < TTY_Q_SZ
   \<and> CHR 0x01 = opts_escape (opts entry0)
   \<and> queued (outcome_state (and_then (ci_byte (env_of True) (CHR 0x01) entry0)
                                       (ci_byte (env_of False) (CHR 0x01)))) = [CHR 0x01]"
proof -
  have h: "state entry0 = ST_TRANSPARENT" "0 \<le> tty_q_len entry0" "tty_q_len entry0 < TTY_Q_SZ"
      "CHR 0x01 = opts_escape (opts entry0)"
    by (simp_all add: entry0_def loop_entry_def opts_init_def TTY_Q_SZ_def)
  have q: "queued entry0 = []"
    by (simp add: entry0_def loop_entry_def queued_def)
  note t = escape_escape [OF h, of "env_of True" "env_of False"]
  from t [THEN conjunct2, THEN conjunct1] q
  have "queued (outcome_state (and_then (ci_byte (env_of True) (CHR 0x01) entry0)
                                        (ci_byte (env_of False) (CHR 0x01)))) = [CHR 0x01]"
    by simp
  with h(1-3) show ?thesis using h(4) by blast
qed

section \<open>The command interpreter\<close>

lemma key_pass_step: "loop_pass (key_pass e c) s = ci_byte e c s"
  by (cases "ci_byte e c s") (simp_all add: loop_pass_def key_pass_def on_sti_def)

lemma transparent_step:
  "state s = ST_TRANSPARENT \<Longrightarrow> c \<noteq> opts_escape (opts s) \<Longrightarrow>
   ci_byte e c s = Continue (enqueue c s)"
  by (simp add: ci_byte_def)

lemma fill_queue:
  "state s = ST_TRANSPARENT \<Longrightarrow> c \<noteq> opts_escape (opts s) \<Longrightarrow> 0 \<le> tty_q_len s \<Longrightarrow>
   tty_q_len s + int n \<le> 257 \<Longrightarrow>
   loop (replicate n (key_pass e c)) s =
     Continue (s\<lparr>tty_q_buff := (\<lambda>i. if tty_q_len s \<le> i \<and> i < tty_q_len s + int n then c
                                     else tty_q_buff s i),
                  tty_q_len := tty_q_len s + int n\<rparr>)"
proof (induction n arbitrary: s)
  case 0
  have "(\<lambda>i. if tty_q_len s \<le> i \<and> i < tty_q_len s + int 0 then c else tty_q_buff s i)
        = tty_q_buff s"
    by (auto simp: fun_eq_iff)
  then show ?case by simp
next
  case (Suc n)
  let ?s1 = "s\<lparr>tty_q_buff := (tty_q_buff s)(tty_q_len s := c), tty_q_len := tty_q_len s + 1\<rparr>"
  have room: "tty_q_len s \<le> TTY_Q_SZ"
    using Suc.prems by (simp add: TTY_Q_SZ_def)
  have step: "loop_pass (key_pass e c) s = Continue ?s1"
    using Suc.prems room by (simp add: key_pass_step transparent_step enqueue_room)
  have "loop (replicate n (key_pass e c)) ?s1 =
     Continue (?s1\<lparr>tty_q_buff := (\<lambda>i. if tty_q_len ?s1 \<le> i \<and> i < tty_q_len ?s1 + int n then c
                                     else tty_q_buff ?s1 i),
                  tty_q_len := tty_q_len ?s1 + int n\<rparr>)"
    using Suc.prems by (intro Suc.IH) simp_all
  also have "?s1\<lparr>tty_q_buff := (\<lambda>i. if tty_q_len ?s1 \<le> i \<and> i < tty_q_len ?s1 + int n then c
                                     else tty_q_buff ?s1 i),
                  tty_q_len := tty_q_len ?s1 + int n\<rparr>
      = s\<lparr>tty_q_buff := (\<lambda>i. if tty_q_len s \<le> i \<and> i < tty_q_len s + int (Suc n) then c
                                     else tty_q_buff s i),
                  tty_q_len := tty_q_len s + int (Suc n)\<rparr>"
    by (auto simp: fun_eq_iff)
  finally have rest: "loop (replicate n (key_pass e c)) ?s1 =
      Continue (s\<lparr>tty_q_buff := (\<lambda>i. if tty_q_len s \<le> i \<and> i < tty_q_len s + int (Suc n) then c
                                     else tty_q_buff s i),
                  tty_q_len := tty_q_len s + int (Suc n)\<rparr>)" .
  show ?case
    unfolding replicate_Suc loop.simps step and_then.simps by (rule rest)
qed

text \<open>
  Claim C1, at the input where the code leaves it. From the entry of the loop, 257 bytes
  other than the escape byte are typed and no other descriptor is ready (the port does not
  accept output). The loop is still running; the length of the queue is 257; the last byte
  is stored at offset 256, one past the 256-byte array; and nothing has been written to the
  screen: no BEL. The test before the store is \<^verbatim>\<open>tty_q.len <= TTY_Q_SZ\<close>.
\<close>

theorem queue_overrun:
  "loop (replicate 257 (key_pass (env_of True) (CHR ''A''))) entry0 =
     Continue (entry0\<lparr>tty_q_buff := (\<lambda>i. if 0 \<le> i \<and> i < 257 then CHR ''A'' else CHR 0x00),
                       tty_q_len := 257\<rparr>)
   \<and> tty_q_len (outcome_state (loop (replicate 257 (key_pass (env_of True) (CHR ''A''))) entry0)) = 257
   \<and> tty_q_buff (outcome_state (loop (replicate 257 (key_pass (env_of True) (CHR ''A''))) entry0)) 256
       = CHR ''A''
   \<and> sto (outcome_state (loop (replicate 257 (key_pass (env_of True) (CHR ''A''))) entry0)) = []"
proof -
  have "loop (replicate 257 (key_pass (env_of True) (CHR ''A''))) entry0 =
     Continue (entry0\<lparr>tty_q_buff := (\<lambda>i. if tty_q_len entry0 \<le> i \<and> i < tty_q_len entry0 + int 257
                                           then CHR ''A'' else tty_q_buff entry0 i),
                  tty_q_len := tty_q_len entry0 + int 257\<rparr>)"
    by (rule fill_queue) (simp_all add: entry0_def loop_entry_def opts_init_def)
  then show ?thesis by (simp add: entry0_def loop_entry_def cong: if_cong)
qed

lemma fmt_d_115200: "fmt_d 115200 = ''115200''"
  by (simp add: fmt_d_def show_base.simps digit_char_def)

lemma fmt_d_8: "fmt_d 8 = ''8''"
  by (simp add: fmt_d_def show_base.simps digit_char_def)

lemma command_status:
  "command e KEY_STATUS s =
       Continue
         (fd_printf (''*** timestamp: '' @ (if tty_time_enable s \<noteq> 0 then ''on'' else ''off'') @ crlf)
         (fd_printf (''*** dtr: '' @ (if dtr_up s then ''up'' else ''down'') @ crlf)
         (fd_printf (''*** databits: '' @ fmt_d (opts_databits (opts s)) @ crlf)
         (fd_printf (''*** parity: '' @ opts_parity_str (opts s) @ crlf)
         (fd_printf (''*** flow: '' @ opts_flow_str (opts s) @ crlf)
         (fd_printf (''*** baud: '' @ fmt_d (opts_baud (opts s)) @ crlf)
         (fd_printf crlf s)))))))"
  by (simp add: command_def key_defs)

lemma escape_then_key:
  "state s = ST_TRANSPARENT \<Longrightarrow> c \<noteq> opts_escape (opts s) \<Longrightarrow>
   loop [key_pass e1 (opts_escape (opts s)), key_pass e2 c] s = command e2 c s"
proof -
  assume t: "state s = ST_TRANSPARENT" and c: "c \<noteq> opts_escape (opts s)"
  have same: "s\<lparr>state := ST_TRANSPARENT\<rparr> = s"
    unfolding t [symmetric] by simp
  have "and_then (command e2 c s) (loop []) = command e2 c s"
    by (cases "command e2 c s") simp_all
  then show ?thesis
    using t c by (simp add: key_pass_step ci_byte_def same)
qed

text \<open>
  Claim C3, at the input where the code leaves it. From the entry of the loop with the
  default options and no \<^verbatim>\<open>--timestamp\<close>, the keys Ctrl-A Ctrl-V print the status block
  below: its last line reads \<open>timestamp: on\<close>, since \<^verbatim>\<open>tty_time_enable\<close> is initialised
  to 2. The other five lines are as the claim says and the queue stays empty.
\<close>

theorem status_default:
  "loop [key_pass (env_of True) (CHR 0x01), key_pass (env_of True) KEY_STATUS] entry0 =
     Continue (entry0\<lparr>sto :=
        crlf @ ''*** baud: 115200'' @ crlf @ ''*** flow: none'' @ crlf
        @ ''*** parity: none'' @ crlf @ ''*** databits: 8'' @ crlf
        @ ''*** dtr: down'' @ crlf @ ''*** timestamp: on'' @ crlf\<rparr>)
   \<and> tty_q_len entry0 = 0 \<and> tty_time_enable entry0 = 2"
proof -
  have e: "opts_escape (opts entry0) = CHR 0x01" "state entry0 = ST_TRANSPARENT"
    by (simp_all add: entry0_def loop_entry_def opts_init_def)
  have "loop [key_pass (env_of True) (opts_escape (opts entry0)), key_pass (env_of True) KEY_STATUS] entry0
        = command (env_of True) KEY_STATUS entry0"
    using e by (intro escape_then_key) (simp_all add: key_defs)
  then show ?thesis
    unfolding e command_status
    by (simp add: entry0_def loop_entry_def opts_init_def fd_printf_def fmt_d_115200 fmt_d_8)
qed

lemma reconf_state:
  "opts (fd_printf txt (do_call k2 (flush_q (do_call k1 s)))) = opts s"
  "sto (fd_printf txt (do_call k2 (flush_q (do_call k1 s)))) = sto s @ txt"
  "tty_q_len (fd_printf txt (do_call k2 (flush_q (do_call k1 s)))) = 0"
  "state (fd_printf txt (do_call k2 (flush_q (do_call k1 s)))) = state s"
  by (simp_all add: fd_printf_def do_call_def flush_q_def)

lemma command_reconf_failed:
  assumes "\<not> apply_ok e"
  shows "command e KEY_BAUD_UP s = Continue
           (fd_printf (crlf @ ''*** baud: '' @ fmt_d (opts_baud (opts s)) @ '' ***'' @ crlf)
             (do_call Term_apply (flush_q
               (do_call (Term_set_baudrate (baud_up (opts_baud (opts s)))) s))))"
    and "command e KEY_BAUD_DN s = Continue
           (fd_printf (crlf @ ''*** baud: '' @ fmt_d (opts_baud (opts s)) @ '' ***'' @ crlf)
             (do_call Term_apply (flush_q
               (do_call (Term_set_baudrate (baud_down (opts_baud (opts s)))) s))))"
    and "command e KEY_FLOW s = Continue
           (fd_printf (crlf @ ''*** flow: '' @ opts_flow_str (opts s) @ '' ***'' @ crlf)
             (do_call Term_apply (flush_q
               (do_call (Term_set_flowcntrl (fst (flow_next (opts_flow (opts s))))) s))))"
    and "command e KEY_PARITY s = Continue
           (fd_printf (crlf @ ''*** parity: '' @ opts_parity_str (opts s) @ '' ***'' @ crlf)
             (do_call Term_apply (flush_q
               (do_call (Term_set_parity (fst (parity_next (opts_parity (opts s))))) s))))"
    and "command e KEY_BITS s = Continue
           (fd_printf (crlf @ ''*** databits: '' @ fmt_d (opts_databits (opts s)) @ '' ***'' @ crlf)
             (do_call Term_apply (flush_q
               (do_call (Term_set_databits (bits_next (opts_databits (opts s)))) s))))"
  using assms
  by (simp_all add: command_def key_defs Let_def split_def fd_printf_def do_call_def flush_q_def)

text \<open>
  Claim C2, amended. In Command state, for each of the five reconfiguration keys (when it
  is not the escape byte), if \<^verbatim>\<open>term_apply\<close> on the port fails then the options are left
  as they were, the queue is empty, the interpreter is back in Transparent state, and the
  confirmation line is printed all the same, showing the value the options still hold.
\<close>

theorem reconf_apply_failed:
  assumes "state s = ST_COMMAND" and "c \<in> set reconf_keys" and "c \<noteq> opts_escape (opts s)"
    and "\<not> apply_ok e"
  shows "continues (ci_byte e c s)
       \<and> opts (outcome_state (ci_byte e c s)) = opts s
       \<and> sto (outcome_state (ci_byte e c s)) = sto s @ crlf @ report c (opts s) @ '' ***'' @ crlf
       \<and> tty_q_len (outcome_state (ci_byte e c s)) = 0
       \<and> state (outcome_state (ci_byte e c s)) = ST_TRANSPARENT"
proof -
  let ?t = "s\<lparr>state := ST_TRANSPARENT\<rparr>"
  have step: "ci_byte e c s = command e c ?t"
    using assms(1,3) by (simp add: ci_byte_def)
  have t: "opts ?t = opts s" "sto ?t = sto s" "state ?t = ST_TRANSPARENT"
    by simp_all
  have "\<exists>k. ci_byte e c s = Continue
          (fd_printf (crlf @ report c (opts s) @ '' ***'' @ crlf)
            (do_call Term_apply (flush_q (do_call k ?t))))"
  proof -
    from assms(2) consider "c = KEY_BAUD_UP" | "c = KEY_BAUD_DN" | "c = KEY_FLOW"
      | "c = KEY_PARITY" | "c = KEY_BITS"
      by (auto simp: reconf_keys_def)
    then show ?thesis
    proof cases
      case 1
      with step command_reconf_failed(1) [OF assms(4), of ?t] show ?thesis
        by (auto simp: report_def)
    next
      case 2
      with step command_reconf_failed(2) [OF assms(4), of ?t] show ?thesis
        by (auto simp: report_def)
    next
      case 3
      with step command_reconf_failed(3) [OF assms(4), of ?t] show ?thesis
        by (auto simp: report_def key_defs)
    next
      case 4
      with step command_reconf_failed(4) [OF assms(4), of ?t] show ?thesis
        by (auto simp: report_def key_defs)
    next
      case 5
      with step command_reconf_failed(5) [OF assms(4), of ?t] show ?thesis
        by (auto simp: report_def key_defs)
    qed
  qed
  then obtain k where run: "ci_byte e c s = Continue
          (fd_printf (crlf @ report c (opts s) @ '' ***'' @ crlf)
            (do_call Term_apply (flush_q (do_call k ?t))))"
    by blast
  show ?thesis
    unfolding run continues.simps outcome_state.simps reconf_state by simp
qed

theorem reconf_apply_failed_witness:
  "state (entry0\<lparr>state := ST_COMMAND\<rparr>) = ST_COMMAND \<and> KEY_FLOW \<in> set reconf_keys
   \<and> KEY_FLOW \<noteq> opts_escape (opts (entry0\<lparr>state := ST_COMMAND\<rparr>))
   \<and> \<not> apply_ok (env_of False)
   \<and> opts (outcome_state (ci_byte (env_of False) KEY_FLOW (entry0\<lparr>state := ST_COMMAND\<rparr>))) = opts_init
   \<and> sto (outcome_state (ci_byte (env_of False) KEY_FLOW (entry0\<lparr>state := ST_COMMAND\<rparr>)))
       = crlf @ ''*** flow: none ***'' @ crlf"
proof -
  have h: "state (entry0\<lparr>state := ST_COMMAND\<rparr>) = ST_COMMAND" "KEY_FLOW \<in> set reconf_keys"
    "KEY_FLOW \<noteq> opts_escape (opts (entry0\<lparr>state := ST_COMMAND\<rparr>))" "\<not> apply_ok (env_of False)"
    by (simp_all add: entry0_def loop_entry_def opts_init_def reconf_keys_def env_of_def key_defs)
  have v: "opts (entry0\<lparr>state := ST_COMMAND\<rparr>) = opts_init" "sto (entry0\<lparr>state := ST_COMMAND\<rparr>) = []"
    "report KEY_FLOW opts_init = ''*** flow: none''"
    by (simp_all add: entry0_def loop_entry_def report_def opts_init_def key_defs)
  from reconf_apply_failed [OF h] h show ?thesis
    unfolding v by simp
qed

text \<open>
  The claim as stated fails on its second half: from the entry of the loop with the default
  options, Ctrl-A Ctrl-U with a failing \<^verbatim>\<open>term_apply\<close> leaves the options unchanged and
  writes the line \<open>*** baud: 115200 ***\<close> to the screen.
\<close>

theorem reconf_silent_counterexample:
  "\<not> apply_ok (env_of False)
   \<and> sto entry0 = []
   \<and> opts (outcome_state (loop [key_pass (env_of False) (CHR 0x01),
                                  key_pass (env_of False) KEY_BAUD_UP] entry0)) = opts entry0
   \<and> sto (outcome_state (loop [key_pass (env_of False) (CHR 0x01),
                                 key_pass (env_of False) KEY_BAUD_UP] entry0))
       = crlf @ ''*** baud: 115200 ***'' @ crlf
   \<and> sto (outcome_state (loop [key_pass (env_of False) (CHR 0x01),
                                 key_pass (env_of False) KEY_BAUD_UP] entry0)) \<noteq> sto entry0"
proof -
  have e: "opts_escape (opts entry0) = CHR 0x01" "state entry0 = ST_TRANSPARENT"
    by (simp_all add: entry0_def loop_entry_def opts_init_def)
  have f: "\<not> apply_ok (env_of False)"
    by (simp add: env_of_def)
  have ne: "KEY_BAUD_UP \<noteq> opts_escape (opts entry0)"
    by (simp add: e key_defs)
  note run = escape_then_key [OF e(2) ne, of "env_of False" "env_of False", unfolded e(1)]
  show ?thesis
    unfolding run command_reconf_failed(1) [OF f] outcome_state.simps reconf_state
    using f by (simp add: entry0_def loop_entry_def opts_init_def fmt_d_115200 crlf_def)
qed

section \<open>The timestamp annotator\<close>

lemma serial_step:
  "loop_pass (serial_pass (tv, c)) s = Continue (fd_printf [c] (timestamp tv c s))"
  by (simp add: loop_pass_def serial_pass_def on_tty_rd_def)

lemma timestamp_running:
  assumes "tty_time_enable s \<noteq> 0" and "tty_time s = TTY_TIME_NONE \<or> tty_time s = TTY_TIME_DISPLAY"
  shows "timestamp tv c s =
           (if is_newline c then s\<lparr>tty_time := TTY_TIME_DISPLAY\<rparr>
            else if tty_time s = TTY_TIME_DISPLAY
                 then s\<lparr>sto := sto s @ stamp tv (tv_ref s), tty_time := TTY_TIME_NONE\<rparr>
            else s)"
  using assms
  by (auto simp: timestamp_def fd_printf_def TTY_TIME_NONE_def TTY_TIME_DISPLAY_def
      TTY_TIME_RESET_def)

lemma timestamp_reset:
  assumes "tty_time_enable s \<noteq> 0" and "tty_time s = TTY_TIME_RESET"
  shows "timestamp tv c s =
           (if is_newline c then s\<lparr>tv_ref := tv, tty_time := TTY_TIME_DISPLAY\<rparr>
            else s\<lparr>tv_ref := tv, sto := sto s @ stamp tv tv, tty_time := TTY_TIME_NONE\<rparr>)"
  using assms
  by (auto simp: timestamp_def fd_printf_def TTY_TIME_NONE_def TTY_TIME_DISPLAY_def
      TTY_TIME_RESET_def)

lemma serial_run_running:
  "tty_time_enable s \<noteq> 0 \<Longrightarrow> tty_time s = TTY_TIME_NONE \<or> tty_time s = TTY_TIME_DISPLAY \<Longrightarrow>
   continues (loop (map serial_pass es) s)
   \<and> sto (outcome_state (loop (map serial_pass es) s))
       = sto s @ annotated (tv_ref s) (tty_time s = TTY_TIME_DISPLAY) es"
proof (induction es arbitrary: s)
  case Nil
  then show ?case by simp
next
  case (Cons ev es)
  obtain tv c where ev: "ev = (tv, c)" by (cases ev)
  let ?s1 = "fd_printf [c] (timestamp tv c s)"
  have ts: "timestamp tv c s =
           (if is_newline c then s\<lparr>tty_time := TTY_TIME_DISPLAY\<rparr>
            else if tty_time s = TTY_TIME_DISPLAY
                 then s\<lparr>sto := sto s @ stamp tv (tv_ref s), tty_time := TTY_TIME_NONE\<rparr>
            else s)"
    using Cons.prems by (rule timestamp_running)
  have run: "loop (map serial_pass (ev # es)) s = loop (map serial_pass es) ?s1"
    by (simp add: ev serial_step)
  have en: "tty_time_enable ?s1 \<noteq> 0"
    using Cons.prems(1) by (simp add: ts fd_printf_def)
  have tt: "tty_time ?s1 = TTY_TIME_NONE \<or> tty_time ?s1 = TTY_TIME_DISPLAY"
    using Cons.prems(2) by (auto simp: ts fd_printf_def)
  have ref: "tv_ref ?s1 = tv_ref s"
    by (simp add: ts fd_printf_def)
  have out: "sto ?s1 @ annotated (tv_ref s) (tty_time ?s1 = TTY_TIME_DISPLAY) es
             = sto s @ annotated (tv_ref s) (tty_time s = TTY_TIME_DISPLAY) (ev # es)"
    using Cons.prems(2)
    by (auto simp: ev ts fd_printf_def TTY_TIME_NONE_def TTY_TIME_DISPLAY_def)
  from Cons.IH [OF en tt] show ?case
    unfolding run ref out by simp
qed

lemma serial_run_reset:
  assumes "tty_time_enable s \<noteq> 0" and "tty_time s = TTY_TIME_RESET" and "es \<noteq> []"
  shows "continues (loop (map serial_pass es) s)
       \<and> sto (outcome_state (loop (map serial_pass es) s))
           = sto s @ annotated (fst (hd es)) True es"
proof -
  from assms(3) obtain tv c es' where es: "es = (tv, c) # es'"
    by (cases es) auto
  let ?s1 = "fd_printf [c] (timestamp tv c s)"
  note ts = timestamp_reset [OF assms(1,2), of tv c]
  have run: "loop (map serial_pass es) s = loop (map serial_pass es') ?s1"
    by (simp add: es serial_step)
  have en: "tty_time_enable ?s1 \<noteq> 0"
    using assms(1) by (simp add: ts fd_printf_def)
  have tt: "tty_time ?s1 = TTY_TIME_NONE \<or> tty_time ?s1 = TTY_TIME_DISPLAY"
    by (simp add: ts fd_printf_def)
  have ref: "tv_ref ?s1 = tv"
    by (simp add: ts fd_printf_def)
  have out: "sto ?s1 @ annotated tv (tty_time ?s1 = TTY_TIME_DISPLAY) es'
             = sto s @ annotated (fst (hd es)) True es"
    by (auto simp: es ts fd_printf_def TTY_TIME_NONE_def TTY_TIME_DISPLAY_def)
  from serial_run_running [OF en tt, of es'] show ?thesis
    unfolding run ref out by simp
qed

lemma command_timestamp_on:
  "tty_time_enable s = 0 \<Longrightarrow>
   command e KEY_TIMESTAMP s =
     Continue (fd_printf (crlf @ ''*** Time Stamp Enable ***'' @ crlf)
                 (s\<lparr>tty_time_enable := 1, tty_time := TTY_TIME_RESET\<rparr>))"
  by (simp add: command_def key_defs)

lemma enable_then_serial:
  assumes "state s = ST_COMMAND" and "tty_time_enable s = 0"
    and "KEY_TIMESTAMP \<noteq> opts_escape (opts s)" and "es \<noteq> []"
  shows "ci_byte e KEY_TIMESTAMP s =
           Continue (s\<lparr>state := ST_TRANSPARENT, tty_time_enable := 1, tty_time := TTY_TIME_RESET,
                       sto := sto s @ crlf @ ''*** Time Stamp Enable ***'' @ crlf\<rparr>)"
    and "continues (loop (key_pass e KEY_TIMESTAMP # map serial_pass es) s)"
    and "sto (outcome_state (loop (key_pass e KEY_TIMESTAMP # map serial_pass es) s))
           = sto s @ crlf @ ''*** Time Stamp Enable ***'' @ crlf @ annotated (fst (hd es)) True es"
proof -
  let ?s1 = "s\<lparr>state := ST_TRANSPARENT, tty_time_enable := 1, tty_time := TTY_TIME_RESET,
                       sto := sto s @ crlf @ ''*** Time Stamp Enable ***'' @ crlf\<rparr>"
  show key: "ci_byte e KEY_TIMESTAMP s = Continue ?s1"
    using assms(1,2,3) by (simp add: ci_byte_def command_timestamp_on fd_printf_def)
  have run: "loop (key_pass e KEY_TIMESTAMP # map serial_pass es) s
             = loop (map serial_pass es) ?s1"
    by (simp add: key_pass_step key)
  have "tty_time_enable ?s1 \<noteq> 0" "tty_time ?s1 = TTY_TIME_RESET"
    by simp_all
  from serial_run_reset [OF this assms(4)]
  show "continues (loop (key_pass e KEY_TIMESTAMP # map serial_pass es) s)"
    and "sto (outcome_state (loop (key_pass e KEY_TIMESTAMP # map serial_pass es) s))
           = sto s @ crlf @ ''*** Time Stamp Enable ***'' @ crlf @ annotated (fst (hd es)) True es"
    unfolding run by simp_all
qed

lemma fmt_d_0: "fmt_d 0 = ''0''"
  by (simp add: fmt_d_def show_base.simps digit_char_def)

lemma fmt_02d_0: "fmt_0d 2 0 = ''00''"
  by (simp add: fmt_0d_def show_base.simps digit_char_def numeral_2_eq_2)

lemma fmt_03d_0: "fmt_0d 3 0 = ''000''"
  by (simp add: fmt_0d_def show_base.simps digit_char_def numeral_3_eq_3)

lemma fmt_03d_250: "fmt_0d 3 250 = ''250''"
  by (simp add: fmt_0d_def show_base.simps digit_char_def)

lemmas fmt_stamp_values = fmt_d_0 fmt_02d_0 fmt_03d_0 fmt_03d_250

lemma stamp_xy:
  "stamp \<lparr>tv_sec = 10, tv_usec = 250000\<rparr> \<lparr>tv_sec = 10, tv_usec = 250000\<rparr>
     = [CHR 0x1B] @ ''[36m0:00.000 '' @ [CHR 0x1B] @ ''[0m''"
  "stamp \<lparr>tv_sec = 10, tv_usec = 500000\<rparr> \<lparr>tv_sec = 10, tv_usec = 250000\<rparr>
     = [CHR 0x1B] @ ''[36m0:00.250 '' @ [CHR 0x1B] @ ''[0m''"
  by (simp_all add: stamp_def diff_sec_def diff_msec_def borrow_def uint_wrap_def int_wrap_def
      signed_divide_int_def fmt_stamp_values)

lemma annotated_xy:
  "annotated (fst (hd xy_events)) True xy_events
     = [CHR 0x1B] @ ''[36m0:00.000 '' @ [CHR 0x1B] @ ''[0mX'' @ [CHR 0x0A]
       @ [CHR 0x1B] @ ''[36m0:00.250 '' @ [CHR 0x1B] @ ''[0mY''"
  by (simp add: xy_events_def is_newline_def stamp_xy)

lemma ts_off_facts:
  "state ts_off = ST_COMMAND" "tty_time_enable ts_off = 0"
  "KEY_TIMESTAMP \<noteq> opts_escape (opts ts_off)" "xy_events \<noteq> []" "sto ts_off = []"
  "tv_ref ts_off = \<lparr>tv_sec = 10, tv_usec = 0\<rparr>"
  by (simp_all add: ts_off_def entry0_def loop_entry_def opts_init_def key_defs xy_events_def)

text \<open>
  Claim C4, amended. Ctrl-I with timestamping off switches it on and puts the annotator in
  its Reset mode; it does not touch the reference time. The reference time is the arrival
  time of the first byte the port delivers after that. From there on the screen receives the
  stream annotated as the specification describes: every line's first byte that is not a
  newline is preceded by exactly one prefix, computed against that reference time. (The
  first prefix of a stream that starts with such a byte is therefore \<open>0:00.000\<close>.)
\<close>

theorem timestamp_enable:
  assumes "state s = ST_COMMAND" and "tty_time_enable s = 0"
    and "KEY_TIMESTAMP \<noteq> opts_escape (opts s)" and "es \<noteq> []"
  shows "ci_byte e KEY_TIMESTAMP s =
           Continue (s\<lparr>state := ST_TRANSPARENT, tty_time_enable := 1, tty_time := TTY_TIME_RESET,
                       sto := sto s @ crlf @ ''*** Time Stamp Enable ***'' @ crlf\<rparr>)
       \<and> continues (loop (key_pass e KEY_TIMESTAMP # map serial_pass es) s)
       \<and> sto (outcome_state (loop (key_pass e KEY_TIMESTAMP # map serial_pass es) s))
           = sto s @ crlf @ ''*** Time Stamp Enable ***'' @ crlf
             @ annotated (fst (hd es)) True es"
  using enable_then_serial [OF assms] by blast

theorem timestamp_enable_witness:
  "state ts_off = ST_COMMAND \<and> tty_time_enable ts_off = 0
   \<and> KEY_TIMESTAMP \<noteq> opts_escape (opts ts_off) \<and> xy_events \<noteq> []
   \<and> sto (outcome_state (loop (key_pass (env_of True) KEY_TIMESTAMP # map serial_pass xy_events)
                               ts_off))
       = crlf @ ''*** Time Stamp Enable ***'' @ crlf
         @ [CHR 0x1B] @ ''[36m0:00.000 '' @ [CHR 0x1B] @ ''[0mX'' @ [CHR 0x0A]
         @ [CHR 0x1B] @ ''[36m0:00.250 '' @ [CHR 0x1B] @ ''[0mY''"
  using timestamp_enable [OF ts_off_facts(1-4), of "env_of True"] ts_off_facts(1-5)
  unfolding annotated_xy by simp

text \<open>
  The claim as stated fails on its example. Timestamping is off and \<^verbatim>\<open>tv_ref\<close> even holds
  10.000 s; Ctrl-I is typed; the port delivers \<open>X\<close> at 10.250 s, a line feed, and \<open>Y\<close>
  at 10.500 s. After the enable message the screen receives the prefixes \<open>0:00.000\<close> and
  \<open>0:00.250\<close>, not \<open>0:00.250\<close> and \<open>0:00.500\<close>.
\<close>

theorem timestamp_reference_counterexample:
  "tv_ref ts_off = \<lparr>tv_sec = 10, tv_usec = 0\<rparr>
   \<and> sto (outcome_state (loop (key_pass (env_of True) KEY_TIMESTAMP # map serial_pass xy_events)
                               ts_off))
       = crlf @ ''*** Time Stamp Enable ***'' @ crlf
         @ [CHR 0x1B] @ ''[36m0:00.000 '' @ [CHR 0x1B] @ ''[0mX'' @ [CHR 0x0A]
         @ [CHR 0x1B] @ ''[36m0:00.250 '' @ [CHR 0x1B] @ ''[0mY''
   \<and> [CHR 0x1B] @ ''[36m0:00.000 '' @ [CHR 0x1B] @ ''[0mX'' @ [CHR 0x0A]
         @ [CHR 0x1B] @ ''[36m0:00.250 '' @ [CHR 0x1B] @ ''[0mY''
       \<noteq> [CHR 0x1B] @ ''[36m0:00.250 '' @ [CHR 0x1B] @ ''[0mX'' @ [CHR 0x0A]
         @ [CHR 0x1B] @ ''[36m0:00.500 '' @ [CHR 0x1B] @ ''[0mY''"
  using enable_then_serial(3) [OF ts_off_facts(1-4), of "env_of True"] ts_off_facts(5,6)
  unfolding annotated_xy by simp

section \<open>The hand-off to an external program\<close>

lemma store_below: "j < i \<Longrightarrow> store m i xs j = m j"
  by (induction xs arbitrary: m i) simp_all

lemma c_string_store:
  "CHR 0x00 \<notin> set name \<Longrightarrow> length name < k \<Longrightarrow>
   c_string (store m i (name @ [CHR 0x00])) i k = name"
proof (induction name arbitrary: m i k)
  case Nil
  then obtain k' where "k = Suc k'" by (cases k) auto
  then show ?case by simp
next
  case (Cons x name)
  from Cons.prems obtain k' where k: "k = Suc k'" and len: "length name < k'"
    by (cases k) auto
  have here: "store (m(i := x)) (i + 1) (name @ [CHR 0x00]) i = x"
    by (simp add: store_below)
  have "c_string (store (m(i := x)) (i + 1) (name @ [CHR 0x00])) (i + 1) k' = name"
    using Cons.prems len by (intro Cons.IH) simp_all
  with here Cons.prems(1) show ?case by (auto simp: k)
qed

lemma fd_readline_typed:
  "\<forall>c \<in> set name. c \<noteq> CHR 0x08 \<and> c \<noteq> CHR 0x0D \<Longrightarrow>
   rl_bp st + int (length name) \<le> bsz - 1 \<Longrightarrow>
   fd_readline (map Rd_byte name @ Rd_byte (CHR 0x0D) # rest) bsz st =
     (Some (rl_bp st + int (length name)), False,
      st\<lparr>rl_b := store (rl_b st) (rl_bp st) (name @ [CHR 0x00]),
         rl_bp := rl_bp st + int (length name),
         rl_out := rl_out st @ name\<rparr>)"
proof (induction name arbitrary: st)
  case Nil
  then show ?case by (simp add: fun_upd_def)
next
  case (Cons c name)
  let ?st1 = "st\<lparr>rl_b := (rl_b st)(rl_bp st := c), rl_bp := rl_bp st + 1,
                  rl_out := rl_out st @ [c]\<rparr>"
  have step: "rl_byte bsz c st = ?st1"
    using Cons.prems by (simp add: rl_byte_def cput_def)
  have "fd_readline (map Rd_byte name @ Rd_byte (CHR 0x0D) # rest) bsz ?st1 =
     (Some (rl_bp ?st1 + int (length name)), False,
      ?st1\<lparr>rl_b := store (rl_b ?st1) (rl_bp ?st1) (name @ [CHR 0x00]),
         rl_bp := rl_bp ?st1 + int (length name),
         rl_out := rl_out ?st1 @ name\<rparr>)"
    using Cons.prems by (intro Cons.IH) simp_all
  then show ?case
    using Cons.prems(1) by (simp add: step add.assoc)
qed

lemma run_cmds_run_cmd: "run_cmds (run_cmd ch args s) = run_cmds s @ [args]"
  by (cases ch) (simp_all add: run_cmd_def run_cmds_def do_call_def fd_printf_def)

lemma prompt_typed:
  assumes "reads e = map Rd_byte name @ Rd_byte (CHR 0x0D) # rest"
    and "\<forall>c \<in> set name. c \<noteq> CHR 0x08 \<and> c \<noteq> CHR 0x0D" and "length name \<le> 127"
  shows "prompt e s =
           (Some (int (length name)), False,
            s\<lparr>fname := store (fname s) 0 (name @ [CHR 0x00]),
               sto := sto s @ name @ crlf\<rparr>)"
proof -
  have "fd_readline (reads e) 128 \<lparr>rl_b = fname s, rl_bp = 0, rl_out = []\<rparr> =
     (Some (int (length name)), False,
      \<lparr>rl_b = store (fname s) 0 (name @ [CHR 0x00]), rl_bp = int (length name), rl_out = name\<rparr>)"
    unfolding assms(1) using assms(2,3)
    by (subst fd_readline_typed) simp_all
  then show ?thesis
    by (simp add: prompt_def fd_printf_def)
qed

lemma command_receive:
  "command e KEY_RECEIVE s =
       (case prompt e (fd_printf ''*** file: '' s) of
          (None, eintr, s) \<Rightarrow> Blocked s
        | (Some r, eintr, s) \<Rightarrow>
            if r < - 1 \<and> eintr then Continue s
            else if r \<le> - 1 then fatal (''cannot read filename: '' @ strerror e) s
            else if fname s 0 \<noteq> CHR 0x00 then
              Continue (run_cmd (child_res e) [opts_send_cmd (opts s), c_string (fname s) 0 128] s)
            else Continue (run_cmd (child_res e) [opts_receive_cmd (opts s)] s))"
  by (simp add: command_def key_defs)

text \<open>
  Claim C7. In Command state (Ctrl-R not being the escape byte), Ctrl-R prompts, and the
  user types a filename and a carriage return; the filename is any string of up to 127 bytes
  without backspace, carriage return or NUL. Then the loop goes on, and \<^verbatim>\<open>run_cmd\<close> has been
  called once more: with \<^verbatim>\<open>opts.send_cmd\<close> followed by the filename when the filename is
  not empty, with \<^verbatim>\<open>opts.receive_cmd\<close> alone when it is empty.
\<close>

theorem receive_handoff:
  assumes "state s = ST_COMMAND" and "KEY_RECEIVE \<noteq> opts_escape (opts s)"
    and "reads e = map Rd_byte name @ Rd_byte (CHR 0x0D) # rest"
    and "CHR 0x08 \<notin> set name" and "CHR 0x0D \<notin> set name" and "CHR 0x00 \<notin> set name"
    and "length name \<le> 127"
  shows "continues (ci_byte e KEY_RECEIVE s)
       \<and> run_cmds (outcome_state (ci_byte e KEY_RECEIVE s))
           = run_cmds s @ [if name \<noteq> [] then [opts_send_cmd (opts s), name]
                           else [opts_receive_cmd (opts s)]]"
proof -
  let ?t = "fd_printf ''*** file: '' (s\<lparr>state := ST_TRANSPARENT\<rparr>)"
  let ?u = "?t\<lparr>fname := store (fname ?t) 0 (name @ [CHR 0x00]), sto := sto ?t @ name @ crlf\<rparr>"
  have step: "ci_byte e KEY_RECEIVE s = command e KEY_RECEIVE (s\<lparr>state := ST_TRANSPARENT\<rparr>)"
    using assms(1,2) by (simp add: ci_byte_def)
  have p: "prompt e ?t = (Some (int (length name)), False, ?u)"
    using assms(3,4,5,7) by (intro prompt_typed) auto
  note nul = assms(6)
  have str: "c_string (fname ?u) 0 128 = name"
    using nul assms(7) by (simp add: c_string_store)
  have first: "fname ?u 0 \<noteq> CHR 0x00 \<longleftrightarrow> name \<noteq> []"
  proof (cases name)
    case Nil
    then show ?thesis by simp
  next
    case (Cons x xs)
    with nul show ?thesis by (auto simp: store_below)
  qed
  have u: "opts ?u = opts s" "run_cmds ?u = run_cmds s"
    by (simp_all add: fd_printf_def run_cmds_def)
  have run: "ci_byte e KEY_RECEIVE s =
      Continue (run_cmd (child_res e)
        (if name \<noteq> [] then [opts_send_cmd (opts s), name] else [opts_receive_cmd (opts s)]) ?u)"
    unfolding step command_receive p using first str u(1) by simp
  show ?thesis
    unfolding run continues.simps outcome_state.simps run_cmds_run_cmd u by simp
qed


theorem receive_handoff_witness:
  "state after_escape = ST_COMMAND \<and> KEY_RECEIVE \<noteq> opts_escape (opts after_escape)
   \<and> reads (typing ''f.txt'') = map Rd_byte ''f.txt'' @ Rd_byte (CHR 0x0D) # []
   \<and> CHR 0x08 \<notin> set ''f.txt'' \<and> CHR 0x0D \<notin> set ''f.txt'' \<and> CHR 0x00 \<notin> set ''f.txt''
   \<and> length ''f.txt'' \<le> 127
   \<and> run_cmds (outcome_state (ci_byte (typing ''f.txt'') KEY_RECEIVE after_escape))
       = [[''ascii_xfr -s -v -l10'', ''f.txt'']]
   \<and> run_cmds (outcome_state (ci_byte (typing []) KEY_RECEIVE after_escape)) = [[''rz -vv'']]"
proof -
  have s: "state after_escape = ST_COMMAND" "KEY_RECEIVE \<noteq> opts_escape (opts after_escape)"
    by (simp_all add: after_escape_def entry0_def loop_entry_def opts_init_def key_defs)
  have v: "run_cmds after_escape = []" "opts_send_cmd (opts after_escape) = ''ascii_xfr -s -v -l10''"
    "opts_receive_cmd (opts after_escape) = ''rz -vv''"
    by (simp_all add: after_escape_def entry0_def loop_entry_def opts_init_def run_cmds_def)
  have r: "reads (typing ''f.txt'') = map Rd_byte ''f.txt'' @ Rd_byte (CHR 0x0D) # []"
    "reads (typing []) = map Rd_byte [] @ Rd_byte (CHR 0x0D) # []"
    by (simp_all add: typing_def env_of_def)
  have n: "CHR 0x08 \<notin> set ''f.txt''" "CHR 0x0D \<notin> set ''f.txt''" "CHR 0x00 \<notin> set ''f.txt''"
    "length ''f.txt'' \<le> 127"
    by simp_all
  from receive_handoff [OF s r(1) n] receive_handoff [OF s r(2), simplified]
  show ?thesis
    unfolding v using s r(1) by simp
qed

end
